theory Spec2Isabelle
  imports Main "HOL-Library.Word"
begin

section \<open>Common C++ library behaviour\<close>

text \<open>
  The four programs are C++.  An \<open>int\<close> is a 32-bit word (signed overflow, undefined in
  C++, is read as two's complement wrap-around), a \<open>size_t\<close> is a 64-bit word, a
  \<open>std::string\<close> is a list of bytes.  An exception that nobody catches and a read that
  C++ leaves undefined are values of \<open>cpp_error\<close>.
\<close>

datatype cpp_error = Invalid_argument | Out_of_range | Undefined_behaviour

type_synonym cpp_int = "32 word"
type_synonym size_t = "64 word"

definition isspace :: "char \<Rightarrow> bool" where
  "isspace c = (c = CHR '' '' \<or> (9 \<le> (of_char c :: nat) \<and> (of_char c :: nat) \<le> 13))"

definition isdigit :: "char \<Rightarrow> bool" where
  "isdigit c = (48 \<le> (of_char c :: nat) \<and> (of_char c :: nat) \<le> 57)"

definition toupper :: "char \<Rightarrow> char" where
  "toupper c = (if 97 \<le> (of_char c :: nat) \<and> (of_char c :: nat) \<le> 122
                then char_of ((of_char c :: nat) - 32) else c)"

text \<open>\<open>s.rfind(p, 0) == 0\<close>: the string starts with \<open>p\<close>.\<close>

definition starts_with :: "string \<Rightarrow> string \<Rightarrow> bool" where
  "starts_with s p = (take (length p) s = p)"

text \<open>\<open>std::string::find\<close>: the first position where the pattern stands, if any.\<close>

fun str_find :: "string \<Rightarrow> string \<Rightarrow> nat option" where
  "str_find [] p = (if p = [] then Some 0 else None)"
| "str_find (c # cs) p =
     (if starts_with (c # cs) p then Some 0
      else case str_find cs p of None \<Rightarrow> None | Some i \<Rightarrow> Some (Suc i))"

text \<open>\<open>std::string\<close>'s \<open><\<close>: lexicographic on the bytes, the order of a \<open>std::map\<close>'s keys.\<close>

fun string_less :: "string \<Rightarrow> string \<Rightarrow> bool" where
  "string_less [] [] = False"
| "string_less [] (y # ys) = True"
| "string_less (x # xs) [] = False"
| "string_less (x # xs) (y # ys) =
     ((of_char x :: nat) < of_char y \<or> (x = y \<and> string_less xs ys))"

text \<open>
  A \<open>std::map<string, V>\<close> whose iteration order matters is an association list kept
  sorted by key: \<open>m[k] = v\<close> is \<open>omap_set\<close>, a loop over the map walks the list.
\<close>

fun omap_set :: "string \<Rightarrow> 'v \<Rightarrow> (string \<times> 'v) list \<Rightarrow> (string \<times> 'v) list" where
  "omap_set k v [] = [(k, v)]"
| "omap_set k v ((k', v') # m) =
     (if k = k' then (k, v) # m
      else if string_less k k' then (k, v) # (k', v') # m
      else (k', v') # omap_set k v m)"

subsection \<open>Number formatting and parsing\<close>

definition hex_digit :: "nat \<Rightarrow> char" where
  "hex_digit d = ''0123456789ABCDEF'' ! (d mod 16)"

fun hex_of_nat :: "nat \<Rightarrow> string" where
  "hex_of_nat n = (if n < 16 then [hex_digit n] else hex_of_nat (n div 16) @ [hex_digit (n mod 16)])"

declare hex_of_nat.simps [simp del]

text \<open>
  \<open>toHex(value, padding)\<close>: \<open>hex << uppercase << setw(padding) << setfill('0')\<close>.  The
  stream prints an \<open>int\<close> in hexadecimal as its unsigned 32-bit pattern, and \<open>setw\<close>
  pads on the left without ever cutting.
\<close>

definition toHex :: "cpp_int \<Rightarrow> nat \<Rightarrow> string" where
  "toHex v padding =
     (let s = hex_of_nat (unat v) in replicate (padding - length s) CHR ''0'' @ s)"

definition digit_value :: "nat \<Rightarrow> char \<Rightarrow> nat option" where
  "digit_value base c =
     (let n = (of_char c :: nat);
          d = (if 48 \<le> n \<and> n \<le> 57 then Some (n - 48)
               else if 97 \<le> n \<and> n \<le> 122 then Some (n - 87)
               else if 65 \<le> n \<and> n \<le> 90 then Some (n - 55)
               else None)
      in case d of None \<Rightarrow> None | Some k \<Rightarrow> if k < base then Some k else None)"

text \<open>The longest run of digits of the base, read as a number; \<open>None\<close> when there is no digit.\<close>

fun parse_digits :: "nat \<Rightarrow> nat option \<Rightarrow> string \<Rightarrow> nat option" where
  "parse_digits base acc [] = acc"
| "parse_digits base acc (c # cs) =
     (case digit_value base c of
        None \<Rightarrow> acc
      | Some d \<Rightarrow> parse_digits base (Some ((case acc of None \<Rightarrow> 0 | Some a \<Rightarrow> a) * base + d)) cs)"

text \<open>
  \<open>std::stoi(s, nullptr, base)\<close>: leading white space, an optional sign, for base 16 an
  optional \<open>0x\<close> before a digit, then digits; what follows the digits is ignored.  No
  digit throws \<open>invalid_argument\<close>, a value that is no \<open>int\<close> throws \<open>out_of_range\<close>.
\<close>

definition stoi :: "string \<Rightarrow> nat \<Rightarrow> cpp_error + cpp_int" where
  "stoi s base =
     (let s1 = dropWhile isspace s;
          neg = starts_with s1 ''-'';
          s2 = (if starts_with s1 ''-'' \<or> starts_with s1 ''+'' then drop 1 s1 else s1);
          s3 = (if base = 16 \<and> (starts_with s2 ''0x'' \<or> starts_with s2 ''0X'')
                   \<and> (case drop 2 s2 of [] \<Rightarrow> False | c # _ \<Rightarrow> digit_value 16 c \<noteq> None)
                then drop 2 s2 else s2)
      in case parse_digits base None s3 of
           None \<Rightarrow> Inl Invalid_argument
         | Some n \<Rightarrow>
             (let v = (if neg then - int n else int n)
              in if v < - (2 ^ 31) \<or> 2 ^ 31 - 1 < v then Inl Out_of_range
                 else Inr (word_of_int v)))"

section \<open>The two-pass assembler (first.cpp)\<close>

subsection \<open>Data structures\<close>

text \<open>\<open>OPTAB\<close>: mnemonic to opcode and length.\<close>

definition OPTAB :: "string \<rightharpoonup> string \<times> cpp_int" where
  "OPTAB = map_of
     [(''LDA'', (''00'', 3)), (''STA'', (''0C'', 3)), (''ADD'', (''18'', 3)),
      (''JMP'', (''30'', 3)), (''JLT'', (''38'', 3)), (''SUB'', (''1C'', 3))]"

record IntermediateLine =
  location_counter :: string
  label :: string
  opcode :: string
  operand :: string

text \<open>
  The globals \<open>SYMTAB\<close> and \<open>LITTAB\<close>, the intermediate file that \<open>pass_one\<close> fills
  through its reference parameter, the locals of \<open>pass_one\<close> and what it writes to
  \<open>cerr\<close>, one entry a line.  \<open>SYMTAB\<close> is only looked up and assigned; \<open>LITTAB\<close> is
  walked in key order at \<open>END\<close>.
\<close>

record asm_state =
  SYMTAB :: "string \<rightharpoonup> string"
  LITTAB :: "(string \<times> (string \<times> cpp_int)) list"
  intermediate_file :: "IntermediateLine list"
  LC :: cpp_int
  start_address :: cpp_int
  program_name :: string
  cerr :: "string list"

definition asm_init :: asm_state where
  "asm_init = \<lparr>SYMTAB = Map.empty, LITTAB = [], intermediate_file = [], LC = 0,
               start_address = 0, program_name = [], cerr = []\<rparr>"

subsection \<open>Helper functions\<close>

text \<open>A \<open>char\<close> passed to \<open>toHex\<close> is promoted to \<open>int\<close>; \<open>char\<close> is signed here.\<close>

definition char_to_int :: "char \<Rightarrow> cpp_int" where
  "char_to_int c = (if (of_char c :: nat) < 128 then of_nat (of_char c) else of_nat (of_char c) - 256)"

abbreviation (input) apostrophe :: char where
  "apostrophe \<equiv> CHR 0x27"

text \<open>
  \<open>s.substr(2, s.length() - 3)\<close> for a string of at least two bytes: with exactly two the
  count wraps to a huge \<open>size_t\<close> and the result is the empty rest.
\<close>

definition substr2 :: "string \<Rightarrow> string" where
  "substr2 s = take (length s - 3) (drop 2 s)"

definition hexToByteCode :: "string \<Rightarrow> string" where
  "hexToByteCode operand_str =
     (if operand_str = [] then []
      else let upperOperand = map toupper operand_str in
        if starts_with upperOperand [CHR ''C'', apostrophe] then
          concat (map (\<lambda>c. toHex (char_to_int c) 2) (substr2 upperOperand))
        else if starts_with upperOperand [CHR ''X'', apostrophe] then
          substr2 upperOperand
        else if isdigit (hd upperOperand)
                \<or> (1 < length upperOperand
                    \<and> (hd upperOperand = CHR ''-'' \<or> hd upperOperand = CHR ''+'')
                    \<and> isdigit (upperOperand ! 1)) then
          (case stoi upperOperand 10 of Inr v \<Rightarrow> toHex v 6 | Inl e \<Rightarrow> ''ERROR'')
        else [])"

text \<open>The message of Pass I for a label that is defined again.\<close>

definition duplicate_message :: "string \<Rightarrow> cpp_int \<Rightarrow> string" where
  "duplicate_message lbl lc =
     ''Error: Duplicate label '' @ [apostrophe] @ lbl @ [apostrophe] @ '' at LC '' @ toHex lc 4"

text \<open>The message of Pass II for an operand that is in neither table.\<close>

definition unresolved_message :: "string \<Rightarrow> string" where
  "unresolved_message opd =
     ''Warning: Symbol/Literal '' @ [apostrophe] @ opd @ [apostrophe]
     @ '' not found. Using address 0000.''"

subsection \<open>Pass I\<close>

text \<open>Step 2 of the loop body: the label, if there is one.\<close>

definition process_label :: "asm_state \<Rightarrow> string \<Rightarrow> asm_state" where
  "process_label st lbl =
     (if lbl \<noteq> [] then
        (if SYMTAB st lbl \<noteq> None
         then st\<lparr>cerr := cerr st @ [duplicate_message lbl (LC st)]\<rparr>
         else st)
        \<lparr>SYMTAB := (SYMTAB st)(lbl \<mapsto> toHex (LC st) 4)\<rparr>
      else st)"

text \<open>Step 3: every line but \<open>END\<close> goes to the intermediate file here.\<close>

definition write_intermediate :: "asm_state \<Rightarrow> string \<Rightarrow> string \<Rightarrow> string \<Rightarrow> asm_state" where
  "write_intermediate st lbl opc opd =
     st\<lparr>intermediate_file := intermediate_file st
          @ [\<lparr>location_counter = toHex (LC st) 4, label = lbl, opcode = opc, operand = opd\<rparr>]\<rparr>"

text \<open>
  Step 4: the new location counter.  \<open>RESW\<close> and \<open>RESB\<close> call \<open>stoi\<close> outside any
  \<open>try\<close>.  For \<open>BYTE\<close> the length is computed in \<open>size_t\<close> and added to the \<open>int\<close>.
\<close>

definition byte_length :: "string \<Rightarrow> cpp_int option" where
  "byte_length s =
     (let upper = map toupper s in
      if starts_with upper [CHR ''C'', apostrophe] then
        Some (ucast ((of_nat (length upper) :: size_t) - 3))
      else if starts_with upper [CHR ''X'', apostrophe] then
        Some (ucast (((of_nat (length upper) :: size_t) - 3) div 2))
      else None)"

definition update_LC :: "cpp_int \<Rightarrow> string \<Rightarrow> string \<Rightarrow> cpp_error + cpp_int" where
  "update_LC lc opc opd =
     (case OPTAB opc of
        Some (code, len) \<Rightarrow> Inr (lc + len)
      | None \<Rightarrow>
          if opc = ''WORD'' then Inr (lc + 3)
          else if opc = ''RESW'' then
            (case stoi opd 10 of Inl e \<Rightarrow> Inl e | Inr n \<Rightarrow> Inr (lc + 3 * n))
          else if opc = ''RESB'' then
            (case stoi opd 10 of Inl e \<Rightarrow> Inl e | Inr n \<Rightarrow> Inr (lc + n))
          else if opc = ''BYTE'' then
            (case byte_length opd of Some n \<Rightarrow> Inr (lc + n) | None \<Rightarrow> Inr lc)
          else Inr lc)"

text \<open>Step 5: a new literal enters \<open>LITTAB\<close> with an empty address.\<close>

definition handle_literal :: "asm_state \<Rightarrow> string \<Rightarrow> asm_state" where
  "handle_literal st opd =
     (if starts_with opd ''='' \<and> map_of (LITTAB st) opd = None then
        st\<lparr>LITTAB := omap_set opd
              ([], case byte_length (drop 1 opd) of Some n \<Rightarrow> n | None \<Rightarrow> 3) (LITTAB st)\<rparr>
      else st)"

text \<open>Step 6: at \<open>END\<close> the literals without an address get one, in key order.\<close>

fun assign_literals :: "cpp_int \<Rightarrow> (string \<times> (string \<times> cpp_int)) list
    \<Rightarrow> (string \<times> (string \<times> cpp_int)) list \<times> cpp_int" where
  "assign_literals lc [] = ([], lc)"
| "assign_literals lc ((k, (addr, len)) # m) =
     (if addr = []
      then (let (m', lc') = assign_literals (lc + len) m in ((k, (toHex lc 4, len)) # m', lc'))
      else (let (m', lc') = assign_literals lc m in ((k, (addr, len)) # m', lc')))"

definition handle_END :: "asm_state \<Rightarrow> string \<Rightarrow> string \<Rightarrow> string \<Rightarrow> asm_state" where
  "handle_END st lbl opc opd =
     (let st1 = write_intermediate st lbl opc opd;
          (m, lc) = assign_literals (LC st1) (LITTAB st1)
      in st1\<lparr>LITTAB := m, LC := lc\<rparr>)"

text \<open>
  One turn of the loop of \<open>pass_one\<close>: the state after the line, and whether the loop
  stops (\<open>break\<close> at \<open>END\<close>).  A source line is \<open>{Label, Opcode, Operand}\<close>; reading
  \<open>line[2]\<close> of a shorter vector is undefined.
\<close>

definition pass_one_line :: "asm_state \<Rightarrow> string list \<Rightarrow> cpp_error + (asm_state \<times> bool)" where
  "pass_one_line st line =
     (case line of
        lbl # opc # opd # _ \<Rightarrow>
          if opc = ''START'' then
            (case (if opd = [] then Inr 0 else stoi opd 16) of
               Inl e \<Rightarrow> Inl e
             | Inr a \<Rightarrow>
                 Inr (write_intermediate
                        (st\<lparr>program_name := lbl, start_address := a, LC := a\<rparr>) lbl opc opd,
                      False))
          else
            (let st1 = process_label st lbl;
                 st2 = (if opc \<noteq> ''END'' then write_intermediate st1 lbl opc opd else st1)
             in case update_LC (LC st2) opc opd of
                  Inl e \<Rightarrow> Inl e
                | Inr lc \<Rightarrow>
                    (let st3 = handle_literal (st2\<lparr>LC := lc\<rparr>) opd
                     in if opc = ''END'' then Inr (handle_END st3 lbl opc opd, True)
                        else Inr (st3, False)))
      | _ \<Rightarrow> Inl Undefined_behaviour)"

fun pass_one_loop :: "asm_state \<Rightarrow> string list list \<Rightarrow> cpp_error + asm_state" where
  "pass_one_loop st [] = Inr st"
| "pass_one_loop st (line # rest) =
     (case pass_one_line st line of
        Inl e \<Rightarrow> Inl e
      | Inr (st', stop) \<Rightarrow> if stop then Inr st' else pass_one_loop st' rest)"

text \<open>
  \<open>pass_one\<close> returns the program name, the start address in hexadecimal and the program
  length; the tables and the intermediate file stay in the state.
\<close>

definition pass_one :: "string list list \<Rightarrow> cpp_error + (asm_state \<times> string \<times> string \<times> cpp_int)" where
  "pass_one source_code =
     (case pass_one_loop asm_init source_code of
        Inl e \<Rightarrow> Inl e
      | Inr st \<Rightarrow> Inr (st, program_name st, toHex (start_address st) 4, LC st - start_address st))"

subsection \<open>Pass II\<close>

record pass_two_state =
  object_program :: "string list"
  text_record_start_addr :: string
  current_text_record_code :: string
  warnings :: "string list"

definition MAX_TEXT_RECORD_LENGTH :: nat where
  "MAX_TEXT_RECORD_LENGTH = 60"

text \<open>The text record that the three flushes of \<open>pass_two\<close> build in the same way.\<close>

definition t_record :: "string \<Rightarrow> string \<Rightarrow> string" where
  "t_record start code = ''T'' @ start @ toHex (of_nat (length code div 2)) 2 @ code"

definition header_record :: "string \<Rightarrow> string \<Rightarrow> cpp_int \<Rightarrow> string" where
  "header_record name start_addr program_len =
     (let padded_name = (if 6 < length name then take 6 name else name);
          padded_name = padded_name @ replicate (6 - length padded_name) CHR '' ''
      in ''H'' @ padded_name @ start_addr @ toHex program_len 6)"

text \<open>The object code of a machine instruction, and the warning when the operand is unknown.\<close>

definition instruction_code :: "asm_state \<Rightarrow> string \<Rightarrow> string \<Rightarrow> string \<times> string list" where
  "instruction_code tabs op_code opd =
     (case SYMTAB tabs opd of
        Some a \<Rightarrow> (op_code @ a, [])
      | None \<Rightarrow>
          if starts_with opd ''='' \<and> map_of (LITTAB tabs) opd \<noteq> None then
            (op_code @ fst (the (map_of (LITTAB tabs) opd)), [])
          else if opd \<noteq> [] then
            (op_code @ ''0000'', [unresolved_message opd])
          else (op_code @ ''0000'', []))"

text \<open>Part 3 of the loop body: the object code of the line joins a text record.\<close>

definition build_text_record :: "pass_two_state \<Rightarrow> IntermediateLine \<Rightarrow> string \<Rightarrow> pass_two_state" where
  "build_text_record st line object_code =
     (if object_code \<noteq> [] then
        (let st1 = (if current_text_record_code st = []
                    then st\<lparr>text_record_start_addr := location_counter line\<rparr> else st)
         in if MAX_TEXT_RECORD_LENGTH < length (current_text_record_code st1) + length object_code
            then st1\<lparr>object_program := object_program st1
                        @ [t_record (text_record_start_addr st1) (current_text_record_code st1)],
                     text_record_start_addr := location_counter line,
                     current_text_record_code := object_code\<rparr>
            else st1\<lparr>current_text_record_code := current_text_record_code st1 @ object_code\<rparr>)
      else st)"

text \<open>One turn of the loop of \<open>pass_two\<close> over the intermediate file.\<close>

definition pass_two_line :: "asm_state \<Rightarrow> pass_two_state \<Rightarrow> IntermediateLine \<Rightarrow> pass_two_state" where
  "pass_two_line tabs st line =
     (case OPTAB (opcode line) of
        Some (op_code, len) \<Rightarrow>
          (let (object_code, w) = instruction_code tabs op_code (operand line)
           in build_text_record (st\<lparr>warnings := warnings st @ w\<rparr>) line object_code)
      | None \<Rightarrow>
          if opcode line = ''WORD'' \<or> opcode line = ''BYTE'' then
            build_text_record st line (hexToByteCode (operand line))
          else if opcode line = ''RESW'' \<or> opcode line = ''RESB'' then
            (if current_text_record_code st \<noteq> []
             then st\<lparr>object_program := object_program st
                        @ [t_record (text_record_start_addr st) (current_text_record_code st)]\<rparr>
             else st)
            \<lparr>current_text_record_code := [], text_record_start_addr := []\<rparr>
          else if opcode line = ''START'' \<or> opcode line = ''END'' then st
          else build_text_record st line [])"

definition pass_two_loop :: "asm_state \<Rightarrow> pass_two_state \<Rightarrow> IntermediateLine list \<Rightarrow> pass_two_state" where
  "pass_two_loop tabs st lines = foldl (pass_two_line tabs) st lines"

text \<open>
  \<open>pass_two\<close>: the header record, the loop, the last text record and the end record.
  The result holds the object program that is printed and the warnings on \<open>cerr\<close>.
\<close>

definition pass_two :: "asm_state \<Rightarrow> IntermediateLine list \<Rightarrow> string \<Rightarrow> string \<Rightarrow> cpp_int
    \<Rightarrow> pass_two_state" where
  "pass_two tabs ifile name start_addr program_len =
     (let st0 = \<lparr>object_program = [header_record name start_addr program_len],
                 text_record_start_addr = [], current_text_record_code = [], warnings = []\<rparr>;
          st1 = pass_two_loop tabs st0 ifile;
          st2 = (if current_text_record_code st1 \<noteq> []
                 then st1\<lparr>object_program := object_program st1
                        @ [t_record (text_record_start_addr st1) (current_text_record_code st1)]\<rparr>
                 else st1)
      in st2\<lparr>object_program := object_program st2 @ [''E'' @ start_addr]\<rparr>)"

subsection \<open>The program of \<open>main\<close>\<close>

text \<open>The literal \<^verbatim>\<open>=C'EOF'\<close> of the sample program.\<close>

abbreviation (input) lit_EOF :: string where
  "lit_EOF \<equiv> [CHR ''='', CHR ''C'', apostrophe, CHR ''E'', CHR ''O'', CHR ''F'', apostrophe]"

definition source_code :: "string list list" where
  "source_code =
     [[''COPY'', ''START'', ''1000''],
      [''LOOP'', ''LDA'', ''TEN''],
      [[], ''ADD'', ''ONE''],
      [[], ''JLT'', ''LOOP''],
      [[], ''STA'', ''RESULT''],
      [[], ''LDA'', lit_EOF],
      [''TEN'', ''WORD'', ''10''],
      [''ONE'', ''RESW'', ''1''],
      [''RESULT'', ''RESB'', ''3''],
      [[], ''END'', []]]"

text \<open>\<open>main\<close>: Pass I on the fixed program, then Pass II on what Pass I left.\<close>

definition main_asm :: "cpp_error + (asm_state \<times> pass_two_state)" where
  "main_asm =
     (case pass_one source_code of
        Inl e \<Rightarrow> Inl e
      | Inr (st, name, start_addr, program_len) \<Rightarrow>
          Inr (st, pass_two st (intermediate_file st) name start_addr program_len))"

text \<open>The states and the intermediate file that the sample program goes through.\<close>

definition il :: "string \<Rightarrow> string \<Rightarrow> string \<Rightarrow> string \<Rightarrow> IntermediateLine" where
  "il lc l opc opd = \<lparr>location_counter = lc, label = l, opcode = opc, operand = opd\<rparr>"

definition sample_state :: "(string \<rightharpoonup> string) \<Rightarrow> (string \<times> (string \<times> cpp_int)) list
    \<Rightarrow> IntermediateLine list \<Rightarrow> cpp_int \<Rightarrow> asm_state" where
  "sample_state sy lt ifl lc =
     \<lparr>SYMTAB = sy, LITTAB = lt, intermediate_file = ifl, LC = lc, start_address = 0x1000,
      program_name = ''COPY'', cerr = []\<rparr>"

definition sample_intermediate :: "IntermediateLine list" where
  "sample_intermediate =
     [il ''1000'' ''COPY'' ''START'' ''1000'', il ''1000'' ''LOOP'' ''LDA'' ''TEN'',
      il ''1003'' [] ''ADD'' ''ONE'', il ''1006'' [] ''JLT'' ''LOOP'',
      il ''1009'' [] ''STA'' ''RESULT'', il ''100C'' [] ''LDA'' lit_EOF,
      il ''100F'' ''TEN'' ''WORD'' ''10'', il ''1012'' ''ONE'' ''RESW'' ''1'',
      il ''1015'' ''RESULT'' ''RESB'' ''3'', il ''1018'' [] ''END'' []]"

definition sample_tables :: asm_state where
  "sample_tables = sample_state
     [''LOOP'' \<mapsto> ''1000'', ''TEN'' \<mapsto> ''100F'', ''ONE'' \<mapsto> ''1012'', ''RESULT'' \<mapsto> ''1015'']
     [(lit_EOF, (''1018'', 3))] sample_intermediate 0x101B"

definition sample_object_program :: "string list" where
  "sample_object_program =
     [''HCOPY  100000001B'', ''T10001200100F1810123810000C101500101800000A'', ''E1000'']"

text \<open>
  The value of the local \<open>object_code\<close> of \<open>pass_two\<close> for a line: what the line
  contributes to the text records (nothing for the lines that \<open>continue\<close> skips).
\<close>

definition line_object_code :: "asm_state \<Rightarrow> IntermediateLine \<Rightarrow> string" where
  "line_object_code tabs line =
     (case OPTAB (opcode line) of
        Some (op_code, len) \<Rightarrow> fst (instruction_code tabs op_code (operand line))
      | None \<Rightarrow>
          if opcode line = ''WORD'' \<or> opcode line = ''BYTE'' then hexToByteCode (operand line)
          else [])"

text \<open>The three fields that an intermediate line takes over from its source line.\<close>

definition line_fields :: "IntermediateLine \<Rightarrow> string list" where
  "line_fields l = [label l, opcode l, operand l]"

section \<open>The two-pass macroprocessor (the second program of fourth(page replacement).cpp)\<close>

subsection \<open>Data structures\<close>

record MNTEntry =
  start_index :: nat
  num_parameters :: nat

record ParsedLine =
  label_p :: string
  opcode_p :: string
  operand_p :: string

text \<open>
  The globals \<open>MNT\<close>, \<open>MDT\<close> and \<open>MDT_IDX\<close>, the locals of \<open>pass_one\<close> that live across
  lines, and the lines written to \<open>intermediate.txt\<close>, each followed by \<open>endl\<close>.
  \<open>MDT_IDX\<close> and the entries of \<open>MNT\<close> count lines of \<open>MDT\<close>; they are natural numbers.
  \<open>formal_to_placeholder\<close> is walked in key order.
\<close>

record macro_state =
  MNT :: "string \<rightharpoonup> MNTEntry"
  MDT :: "string list"
  MDT_IDX :: nat
  in_macro :: bool
  macro_name :: string
  formal_params :: "string list"
  formal_to_placeholder :: "(string \<times> string) list"
  intermediate_txt :: "string list"

definition macro_init :: macro_state where
  "macro_init = \<lparr>MNT = Map.empty, MDT = [], MDT_IDX = 0, in_macro = False, macro_name = [],
                 formal_params = [], formal_to_placeholder = [], intermediate_txt = []\<rparr>"

subsection \<open>Helpers\<close>

text \<open>
  Pieces of a string between separators, empty pieces left out: \<open>ss >> token\<close> with white
  space as the separator, and \<open>getline(ss, param, ',')\<close> followed by the test
  \<open>!param.empty()\<close> with the comma.
\<close>

fun split_on :: "(char \<Rightarrow> bool) \<Rightarrow> string \<Rightarrow> string \<Rightarrow> string list" where
  "split_on sep cur [] = (if cur = [] then [] else [cur])"
| "split_on sep cur (c # cs) =
     (if sep c then (if cur = [] then split_on sep [] cs else cur # split_on sep [] cs)
      else split_on sep (cur @ [c]) cs)"

definition tokenize :: "string \<Rightarrow> string list" where
  "tokenize line = split_on isspace [] line"

definition parse_line :: "string list \<Rightarrow> ParsedLine" where
  "parse_line tokens =
     (if length tokens = 0 then \<lparr>label_p = [], opcode_p = [], operand_p = []\<rparr>
      else if length tokens = 1 then \<lparr>label_p = [], opcode_p = tokens ! 0, operand_p = []\<rparr>
      else if length tokens = 2 then \<lparr>label_p = [], opcode_p = tokens ! 0, operand_p = tokens ! 1\<rparr>
      else \<lparr>label_p = tokens ! 0, opcode_p = tokens ! 1, operand_p = tokens ! 2\<rparr>)"

definition extract_parameters :: "string \<Rightarrow> string list" where
  "extract_parameters operand_str = split_on (\<lambda>c. c = CHR '','') [] operand_str"

definition dec_digit :: "nat \<Rightarrow> char" where
  "dec_digit d = ''0123456789'' ! (d mod 10)"

fun to_string :: "nat \<Rightarrow> string" where
  "to_string n = (if n < 10 then [dec_digit n] else to_string (n div 10) @ [dec_digit (n mod 10)])"

declare to_string.simps [simp del]

text \<open>
  \<open>pos = s.find(from); if (pos != npos) s.replace(pos, from.length(), to)\<close>: the first
  occurrence only.
\<close>

definition replace_first :: "string \<Rightarrow> string \<Rightarrow> string \<Rightarrow> string" where
  "replace_first from to s =
     (case str_find s from of
        None \<Rightarrow> s
      | Some pos \<Rightarrow> take pos s @ to @ drop (pos + length from) s)"

text \<open>The loop over a map of replacements, in key order, each applied to the result so far.\<close>

definition substitute :: "(string \<times> string) list \<Rightarrow> string \<Rightarrow> string" where
  "substitute pairs line = foldl (\<lambda>s (from, to). replace_first from to s) line pairs"

text \<open>\<open>formal_to_placeholder[formal_params[i]] = "#" + to_string(i)\<close> for \<open>i\<close> from \<open>i0\<close> on.\<close>

fun build_formal_map :: "nat \<Rightarrow> string list \<Rightarrow> (string \<times> string) list \<Rightarrow> (string \<times> string) list" where
  "build_formal_map i [] m = m"
| "build_formal_map i (f # fs) m = build_formal_map (Suc i) fs (omap_set f (''#'' @ to_string i) m)"

subsection \<open>Pass I\<close>

text \<open>One turn of the loop of \<open>pass_one\<close>.\<close>

definition pass_one_line_m :: "macro_state \<Rightarrow> string \<Rightarrow> macro_state" where
  "pass_one_line_m st line =
     (let tokens = tokenize line in
      if tokens = [] then st
      else let parsed = parse_line tokens in
        if opcode_p parsed = ''MACRO'' then
          (let formals = extract_parameters (operand_p parsed)
           in st\<lparr>in_macro := True,
                 macro_name := label_p parsed,
                 formal_params := formals,
                 formal_to_placeholder := build_formal_map 0 formals [],
                 MNT := (MNT st)(label_p parsed \<mapsto>
                           \<lparr>start_index = MDT_IDX st, num_parameters = length formals\<rparr>),
                 MDT := MDT st @ [line],
                 MDT_IDX := MDT_IDX st + 1\<rparr>)
        else if opcode_p parsed = ''MEND'' then
          st\<lparr>in_macro := False, MDT := MDT st @ [line], MDT_IDX := MDT_IDX st + 1\<rparr>
        else if in_macro st then
          st\<lparr>MDT := MDT st @ [substitute (formal_to_placeholder st) line],
             MDT_IDX := MDT_IDX st + 1\<rparr>
        else st\<lparr>intermediate_txt := intermediate_txt st @ [line]\<rparr>)"

definition pass_one_from :: "macro_state \<Rightarrow> string list \<Rightarrow> macro_state" where
  "pass_one_from st source = foldl pass_one_line_m st source"

definition pass_one_m :: "string list \<Rightarrow> macro_state" where
  "pass_one_m source = pass_one_from macro_init source"

subsection \<open>Pass II\<close>

text \<open>
  A file written line by line with \<open>endl\<close>, and the lines that \<open>getline\<close> reads back from
  its content.
\<close>

definition file_content :: "string list \<Rightarrow> string" where
  "file_content written = concat (map (\<lambda>l. l @ [CHR 0x0A]) written)"

fun getlines_from :: "string \<Rightarrow> string \<Rightarrow> string list" where
  "getlines_from cur [] = (if cur = [] then [] else [cur])"
| "getlines_from cur (c # cs) =
     (if c = CHR 0x0A then cur # getlines_from [] cs else getlines_from (cur @ [c]) cs)"

definition getlines :: "string \<Rightarrow> string list" where
  "getlines content = getlines_from [] content"

definition argument_count_message :: "string \<Rightarrow> string" where
  "argument_count_message opc = ''**ERROR: Incorrect number of arguments for macro '' @ opc @ ''.''"

definition indexing_message :: "string \<Rightarrow> string" where
  "indexing_message opc = ''**ERROR: MDT indexing error during expansion of '' @ opc @ ''.''"

text \<open>\<open>actual_map["#" + to_string(i)] = actual_params[i]\<close> for \<open>i\<close> from \<open>i0\<close> on.\<close>

fun build_actual_map :: "nat \<Rightarrow> string list \<Rightarrow> (string \<times> string) list \<Rightarrow> (string \<times> string) list" where
  "build_actual_map i [] m = m"
| "build_actual_map i (a # as) m = build_actual_map (Suc i) as (omap_set (''#'' @ to_string i) a m)"

definition is_MEND :: "string \<Rightarrow> bool" where
  "is_MEND md_line =
     (let md_tokens = tokenize md_line in
      (1 < length md_tokens \<and> md_tokens ! 1 = ''MEND'')
      \<or> (length md_tokens = 1 \<and> md_tokens ! 0 = ''MEND''))"

text \<open>
  The \<open>while (true)\<close> of the expansion: the lines it writes to \<open>output.txt\<close>.  It ends at a
  \<open>MEND\<close> line, or with the error line when the index leaves the table.
\<close>

function expand :: "string list \<Rightarrow> (string \<times> string) list \<Rightarrow> string \<Rightarrow> nat \<Rightarrow> string list" where
  "expand mdt actual_map opc current_mdt_idx =
     (if length mdt \<le> current_mdt_idx then [indexing_message opc]
      else if is_MEND (mdt ! current_mdt_idx) then []
      else substitute actual_map (mdt ! current_mdt_idx)
           # expand mdt actual_map opc (current_mdt_idx + 1))"
  by pat_completeness auto
termination
  by (relation "measure (\<lambda>(mdt, actual_map, opc, i). length mdt - i)") auto

declare expand.simps [simp del]

text \<open>One turn of the loop of \<open>pass_two\<close>: the lines that a line of the intermediate file adds to the output.\<close>

definition pass_two_line_m :: "macro_state \<Rightarrow> string \<Rightarrow> string list" where
  "pass_two_line_m st line =
     (let tokens = tokenize line in
      if tokens = [] then []
      else let parsed = parse_line tokens in
        case MNT st (opcode_p parsed) of
          Some mnt_entry \<Rightarrow>
            (let actual_params = extract_parameters (operand_p parsed) in
             if length actual_params \<noteq> num_parameters mnt_entry
             then [argument_count_message (opcode_p parsed)]
             else expand (MDT st) (build_actual_map 0 actual_params []) (opcode_p parsed)
                    (start_index mnt_entry + 1))
        | None \<Rightarrow> [line])"

definition pass_two_lines :: "macro_state \<Rightarrow> string list \<Rightarrow> string list" where
  "pass_two_lines st ls = concat (map (pass_two_line_m st) ls)"

text \<open>\<open>pass_two\<close> reads \<open>intermediate.txt\<close> as Pass I left it; the result is the lines of \<open>output.txt\<close>.\<close>

definition pass_two_m :: "macro_state \<Rightarrow> string list" where
  "pass_two_m st = pass_two_lines st (getlines (file_content (intermediate_txt st)))"

subsection \<open>The program of \<open>main\<close>\<close>

abbreviation (input) tab :: char where
  "tab \<equiv> CHR 0x09"

definition source_code_m :: "string list" where
  "source_code_m =
     [''MAIN'' @ [tab] @ ''START'' @ [tab] @ ''1000'',
      ''LOOP'' @ [tab] @ ''LOAD'' @ [tab] @ ''X'',
      ''CALC'' @ [tab] @ ''MACRO'' @ [tab] @ ''&A,&B'',
      ''&A'' @ [tab] @ ''ADD'' @ [tab] @ ''&B'',
      [tab] @ ''SUB'' @ [tab] @ ''&B'',
      ''MEND'',
      [tab] @ ''STORE'' @ [tab] @ ''Y'',
      ''INIT'' @ [tab] @ ''MACRO'' @ [tab] @ ''&X,&Y,&Z'',
      ''&X'' @ [tab] @ ''LOAD'' @ [tab] @ ''&Y'',
      [tab] @ ''STORE'' @ [tab] @ ''&Z'',
      ''MEND'',
      [tab] @ ''INIT'' @ [tab] @ ''TEMP,ONE,TWO'',
      [tab] @ ''CALC'' @ [tab] @ ''X,Y'',
      [tab] @ ''CALC'' @ [tab] @ ''Y,Z'',
      ''X'' @ [tab] @ ''RESW'' @ [tab] @ ''1'',
      ''Y'' @ [tab] @ ''RESW'' @ [tab] @ ''1'',
      ''Z'' @ [tab] @ ''RESW'' @ [tab] @ ''1'',
      ''TEMP'' @ [tab] @ ''RESW'' @ [tab] @ ''1'',
      ''ONE'' @ [tab] @ ''WORD'' @ [tab] @ ''1'',
      ''TWO'' @ [tab] @ ''WORD'' @ [tab] @ ''2'',
      [tab] @ ''END'' @ [tab]]"

definition main_m :: "string list" where
  "main_m = pass_two_m (pass_one_m source_code_m)"

text \<open>What Pass I leaves for the program of \<open>main\<close>, and the lines of \<open>output.txt\<close>.\<close>

definition sample_MDT :: "string list" where
  "sample_MDT =
     [''CALC'' @ [tab] @ ''MACRO'' @ [tab] @ ''&A,&B'',
      ''#0'' @ [tab] @ ''ADD'' @ [tab] @ ''#1'',
      [tab] @ ''SUB'' @ [tab] @ ''#1'',
      ''MEND'',
      ''INIT'' @ [tab] @ ''MACRO'' @ [tab] @ ''&X,&Y,&Z'',
      ''#0'' @ [tab] @ ''LOAD'' @ [tab] @ ''#1'',
      [tab] @ ''STORE'' @ [tab] @ ''#2'',
      ''MEND'']"

definition sample_intermediate_txt :: "string list" where
  "sample_intermediate_txt =
     [''MAIN'' @ [tab] @ ''START'' @ [tab] @ ''1000'',
      ''LOOP'' @ [tab] @ ''LOAD'' @ [tab] @ ''X'',
      [tab] @ ''STORE'' @ [tab] @ ''Y'',
      [tab] @ ''INIT'' @ [tab] @ ''TEMP,ONE,TWO'',
      [tab] @ ''CALC'' @ [tab] @ ''X,Y'',
      [tab] @ ''CALC'' @ [tab] @ ''Y,Z'',
      ''X'' @ [tab] @ ''RESW'' @ [tab] @ ''1'',
      ''Y'' @ [tab] @ ''RESW'' @ [tab] @ ''1'',
      ''Z'' @ [tab] @ ''RESW'' @ [tab] @ ''1'',
      ''TEMP'' @ [tab] @ ''RESW'' @ [tab] @ ''1'',
      ''ONE'' @ [tab] @ ''WORD'' @ [tab] @ ''1'',
      ''TWO'' @ [tab] @ ''WORD'' @ [tab] @ ''2'',
      [tab] @ ''END'' @ [tab]]"

definition sample_macro_state :: macro_state where
  "sample_macro_state =
     \<lparr>MNT = [''CALC'' \<mapsto> \<lparr>start_index = 0, num_parameters = 2\<rparr>,
             ''INIT'' \<mapsto> \<lparr>start_index = 4, num_parameters = 3\<rparr>],
      MDT = sample_MDT, MDT_IDX = 8, in_macro = False, macro_name = ''INIT'',
      formal_params = [''&X'', ''&Y'', ''&Z''],
      formal_to_placeholder = [(''&X'', ''#0''), (''&Y'', ''#1''), (''&Z'', ''#2'')],
      intermediate_txt = sample_intermediate_txt\<rparr>"

definition sample_output_txt :: "string list" where
  "sample_output_txt =
     [''MAIN'' @ [tab] @ ''START'' @ [tab] @ ''1000'',
      ''LOOP'' @ [tab] @ ''LOAD'' @ [tab] @ ''X'',
      [tab] @ ''STORE'' @ [tab] @ ''Y'',
      ''TEMP'' @ [tab] @ ''LOAD'' @ [tab] @ ''ONE'',
      [tab] @ ''STORE'' @ [tab] @ ''TWO'',
      ''X'' @ [tab] @ ''ADD'' @ [tab] @ ''Y'',
      [tab] @ ''SUB'' @ [tab] @ ''Y'',
      ''Y'' @ [tab] @ ''ADD'' @ [tab] @ ''Z'',
      [tab] @ ''SUB'' @ [tab] @ ''Z'',
      ''X'' @ [tab] @ ''RESW'' @ [tab] @ ''1'',
      ''Y'' @ [tab] @ ''RESW'' @ [tab] @ ''1'',
      ''Z'' @ [tab] @ ''RESW'' @ [tab] @ ''1'',
      ''TEMP'' @ [tab] @ ''RESW'' @ [tab] @ ''1'',
      ''ONE'' @ [tab] @ ''WORD'' @ [tab] @ ''1'',
      ''TWO'' @ [tab] @ ''WORD'' @ [tab] @ ''2'',
      [tab] @ ''END'' @ [tab]]"

subsection \<open>Notions of the specification\<close>










section \<open>The page replacement simulator (the first program of fourth(page replacement).cpp)\<close>

text \<open>
  A page is an \<open>int\<close> that is only compared.  The fault counter is a natural number: it
  counts references of the vector.  \<open>frames.size() < capacity\<close> compares a \<open>size_t\<close>
  with an \<open>int\<close>: the capacity is converted to \<open>size_t\<close>, so that a negative capacity
  is a huge one.
\<close>

definition size_lt_capacity :: "nat \<Rightarrow> cpp_int \<Rightarrow> bool" where
  "size_lt_capacity n capacity = (n < unat (scast capacity :: size_t))"

text \<open>\<open>std::replace(frames.begin(), frames.end(), victim, p)\<close>.\<close>

definition replace_value :: "int \<Rightarrow> int \<Rightarrow> int list \<Rightarrow> int list" where
  "replace_value victim p frames = map (\<lambda>f. if f = victim then p else f) frames"

subsection \<open>FIFO\<close>

record fifo_state =
  frames :: "int list"
  queue :: "int list"
  faults :: nat

definition fifo_init :: fifo_state where
  "fifo_init = \<lparr>frames = [], queue = [], faults = 0\<rparr>"

text \<open>One turn of the loop of \<open>fifo\<close>.  \<open>q.front()\<close> of an empty queue is undefined.\<close>

definition fifo_step :: "cpp_int \<Rightarrow> fifo_state \<Rightarrow> int \<Rightarrow> cpp_error + fifo_state" where
  "fifo_step capacity st p =
     (if p \<notin> set (frames st) then
        (if size_lt_capacity (length (frames st)) capacity then
           Inr (st\<lparr>frames := frames st @ [p], queue := queue st @ [p], faults := faults st + 1\<rparr>)
         else
           (case queue st of
              [] \<Rightarrow> Inl Undefined_behaviour
            | victim # rest \<Rightarrow>
                Inr (st\<lparr>frames := replace_value victim p (frames st), queue := rest @ [p],
                        faults := faults st + 1\<rparr>)))
      else Inr st)"

fun fifo_from :: "cpp_int \<Rightarrow> fifo_state \<Rightarrow> int list \<Rightarrow> cpp_error + fifo_state" where
  "fifo_from capacity st [] = Inr st"
| "fifo_from capacity st (p # pages) =
     (case fifo_step capacity st p of
        Inl e \<Rightarrow> Inl e
      | Inr st' \<Rightarrow> fifo_from capacity st' pages)"

text \<open>\<open>fifo(pages, capacity)\<close>: the state at the end, whose counter is printed as the total.\<close>

definition fifo :: "int list \<Rightarrow> cpp_int \<Rightarrow> cpp_error + fifo_state" where
  "fifo pages capacity = fifo_from capacity fifo_init pages"

subsection \<open>LRU\<close>

text \<open>
  \<open>lastUsed\<close> is an \<open>unordered_map<int, int>\<close> read with \<open>operator[]\<close>: a page that is not
  in it reads as 0.  \<open>time\<close> counts the references.
\<close>

record lru_state =
  lru_frames :: "int list"
  lastUsed :: "int \<Rightarrow> int"
  lru_faults :: nat
  time :: int

definition lru_init :: lru_state where
  "lru_init = \<lparr>lru_frames = [], lastUsed = (\<lambda>page. 0), lru_faults = 0, time = 0\<rparr>"

definition INT_MAX :: int where
  "INT_MAX = 2147483647"

text \<open>The scan for the page used least recently, from \<open>(lruPage, minTime)\<close>.\<close>

fun lru_scan :: "(int \<Rightarrow> int) \<Rightarrow> int list \<Rightarrow> int \<times> int \<Rightarrow> int" where
  "lru_scan used [] (lruPage, minTime) = lruPage"
| "lru_scan used (f # fs) (lruPage, minTime) =
     (if used f < minTime then lru_scan used fs (f, used f)
      else lru_scan used fs (lruPage, minTime))"

text \<open>One turn of the loop of \<open>lru\<close>.  \<open>frames[0]\<close> of an empty vector is undefined.\<close>

definition lru_step :: "cpp_int \<Rightarrow> lru_state \<Rightarrow> int \<Rightarrow> cpp_error + lru_state" where
  "lru_step capacity st p =
     (let now = time st + 1 in
      if p \<notin> set (lru_frames st) then
        (if size_lt_capacity (length (lru_frames st)) capacity then
           Inr (st\<lparr>lru_frames := lru_frames st @ [p], lru_faults := lru_faults st + 1,
                   time := now, lastUsed := (lastUsed st)(p := now)\<rparr>)
         else
           (case lru_frames st of
              [] \<Rightarrow> Inl Undefined_behaviour
            | first # others \<Rightarrow>
                Inr (st\<lparr>lru_frames :=
                          replace_value (lru_scan (lastUsed st) (lru_frames st) (first, INT_MAX)) p
                            (lru_frames st),
                        lru_faults := lru_faults st + 1,
                        time := now, lastUsed := (lastUsed st)(p := now)\<rparr>)))
      else Inr (st\<lparr>time := now, lastUsed := (lastUsed st)(p := now)\<rparr>))"

fun lru_from :: "cpp_int \<Rightarrow> lru_state \<Rightarrow> int list \<Rightarrow> cpp_error + lru_state" where
  "lru_from capacity st [] = Inr st"
| "lru_from capacity st (p # pages) =
     (case lru_step capacity st p of
        Inl e \<Rightarrow> Inl e
      | Inr st' \<Rightarrow> lru_from capacity st' pages)"

definition lru :: "int list \<Rightarrow> cpp_int \<Rightarrow> cpp_error + lru_state" where
  "lru pages capacity = lru_from capacity lru_init pages"

subsection \<open>Optimal\<close>

record optimal_state =
  opt_frames :: "int list"
  opt_faults :: nat

definition optimal_init :: optimal_state where
  "optimal_init = \<lparr>opt_frames = [], opt_faults = 0\<rparr>"

text \<open>The inner loop: the first \<open>j > i\<close> with \<open>pages[j] == f\<close>, or \<open>pages.size()\<close>.\<close>

definition next_use :: "int list \<Rightarrow> nat \<Rightarrow> int \<Rightarrow> nat" where
  "next_use pages i f = Suc i + length (takeWhile (\<lambda>x. x \<noteq> f) (drop (Suc i) pages))"

text \<open>The loop over the frames, from \<open>(victim, farthest)\<close>; it breaks at a page that is never used again.\<close>

fun optimal_scan :: "int list \<Rightarrow> nat \<Rightarrow> int list \<Rightarrow> int \<times> nat \<Rightarrow> int" where
  "optimal_scan pages i [] (victim, farthest) = victim"
| "optimal_scan pages i (f # fs) (victim, farthest) =
     (let j = next_use pages i f in
      if j = length pages then f
      else if farthest < j then optimal_scan pages i fs (f, j)
      else optimal_scan pages i fs (victim, farthest))"

text \<open>One turn of the loop of \<open>optimal\<close>, for the index \<open>i\<close>.\<close>

definition optimal_step :: "int list \<Rightarrow> cpp_int \<Rightarrow> optimal_state \<Rightarrow> nat \<Rightarrow> optimal_state" where
  "optimal_step pages capacity st i =
     (let p = pages ! i in
      if p \<notin> set (opt_frames st) then
        (if size_lt_capacity (length (opt_frames st)) capacity then
           st\<lparr>opt_frames := opt_frames st @ [p], opt_faults := opt_faults st + 1\<rparr>
         else
           st\<lparr>opt_frames :=
                replace_value (optimal_scan pages i (opt_frames st) (- 1, i + 1)) p (opt_frames st),
              opt_faults := opt_faults st + 1\<rparr>)
      else st)"

text \<open>The state after the references with index below \<open>n\<close>; \<open>optimal\<close> goes through all of them.\<close>

definition optimal_upto :: "int list \<Rightarrow> cpp_int \<Rightarrow> nat \<Rightarrow> optimal_state" where
  "optimal_upto pages capacity n = foldl (optimal_step pages capacity) optimal_init [0..<n]"

definition optimal :: "int list \<Rightarrow> cpp_int \<Rightarrow> optimal_state" where
  "optimal pages capacity = optimal_upto pages capacity (length pages)"

subsection \<open>The reference string of \<open>main\<close>\<close>

definition main_pages :: "int list" where
  "main_pages = [7, 0, 1, 2, 0, 3, 0, 4, 2, 3, 0, 3, 2]"

subsection \<open>Notions of the specification\<close>

text \<open>
  Whether the page of reference \<open>i\<close> is resident when the reference is made: it is in
  the frames that the policy has built from the references before it.
\<close>

definition fifo_resident :: "int list \<Rightarrow> cpp_int \<Rightarrow> nat \<Rightarrow> bool" where
  "fifo_resident pages capacity i =
     (case fifo (take i pages) capacity of Inr s \<Rightarrow> pages ! i \<in> set (frames s) | Inl e \<Rightarrow> False)"

definition lru_resident :: "int list \<Rightarrow> cpp_int \<Rightarrow> nat \<Rightarrow> bool" where
  "lru_resident pages capacity i =
     (case lru (take i pages) capacity of Inr s \<Rightarrow> pages ! i \<in> set (lru_frames s) | Inl e \<Rightarrow> False)"

definition optimal_resident :: "int list \<Rightarrow> cpp_int \<Rightarrow> nat \<Rightarrow> bool" where
  "optimal_resident pages capacity i = (pages ! i \<in> set (opt_frames (optimal_upto pages capacity i)))"

text \<open>The number of references below \<open>n\<close> that are faults.\<close>

definition fault_count :: "(nat \<Rightarrow> bool) \<Rightarrow> nat \<Rightarrow> nat" where
  "fault_count resident n = length (filter (\<lambda>i. \<not> resident i) [0..<n])"

section \<open>The CPU scheduling simulator (third(CPU SCHEDULING).cpp)\<close>

text \<open>
  Times are \<open>int\<close>s of the program, taken here as mathematical integers: the theorems
  speak of runs in which the clock stays an \<open>int\<close>.
\<close>

record Process =
  pid :: int
  at :: int
  bt :: int
  prio :: int
  ct :: int
  tat :: int
  wt :: int
  rt :: int



text \<open>\<open>display\<close> fills in the turnaround and waiting times before it prints the table.\<close>

definition display :: "Process list \<Rightarrow> Process list" where
  "display p = map (\<lambda>x. x\<lparr>tat := ct x - at x, wt := ct x - at x - bt x\<rparr>) p"

subsection \<open>SJF (preemptive)\<close>







subsection \<open>Round Robin\<close>

text \<open>
  The ready queue holds indices into the process vector; \<open>rr_rt\<close> is the vector \<open>rt\<close> of
  remaining times and \<open>vis\<close> the vector of 0/1 marks.
\<close>

record rr_state =
  rr_procs :: "Process list"
  ready :: "nat list"
  rr_rt :: "int list"
  vis :: "int list"
  rr_clock :: int
  rr_done :: int

text \<open>One turn of either \<open>for\<close> loop that admits arrivals, and the whole loop.\<close>

definition admit_one :: "Process list \<Rightarrow> int \<Rightarrow> nat list \<times> int list \<Rightarrow> nat \<Rightarrow> nat list \<times> int list" where
  "admit_one p t rv i =
     (if snd rv ! i = 0 \<and> at (p ! i) \<le> t then (fst rv @ [i], (snd rv)[i := 1]) else rv)"

definition admit :: "Process list \<Rightarrow> int \<Rightarrow> nat list \<times> int list \<Rightarrow> nat list \<times> int list" where
  "admit p t rv = foldl (admit_one p t) rv [0..<length p]"

text \<open>The body of the \<open>while\<close> loop of \<open>roundRobin\<close>, with quantum \<open>q\<close>.\<close>

definition rr_step :: "int \<Rightarrow> rr_state \<Rightarrow> rr_state" where
  "rr_step q st =
     (let (ready1, vis1) = admit (rr_procs st) (rr_clock st) (ready st, vis st) in
      case ready1 of
        [] \<Rightarrow> st\<lparr>ready := ready1, vis := vis1, rr_clock := rr_clock st + 1\<rparr>
      | i # waiting \<Rightarrow>
          (let exec = min q (rr_rt st ! i);
               rt' = (rr_rt st)[i := rr_rt st ! i - exec];
               t' = rr_clock st + exec;
               (ready2, vis2) = admit (rr_procs st) t' (waiting, vis1)
           in if rt' ! i = 0
              then st\<lparr>rr_procs := (rr_procs st)[i := (rr_procs st ! i)\<lparr>ct := t'\<rparr>],
                      ready := ready2, rr_rt := rt', vis := vis2, rr_clock := t',
                      rr_done := rr_done st + 1\<rparr>
              else st\<lparr>ready := ready2 @ [i], rr_rt := rt', vis := vis2, rr_clock := t'\<rparr>))"

definition rr_init :: "Process list \<Rightarrow> rr_state" where
  "rr_init p = \<lparr>rr_procs = p, ready = [], rr_rt = map bt p, vis = map (\<lambda>x. 0) p,
               rr_clock = 0, rr_done = 0\<rparr>"

partial_function (option) rr_loop :: "int \<Rightarrow> rr_state \<Rightarrow> rr_state option" where
  "rr_loop q st =
     (if rr_done st < int (length (rr_procs st)) then rr_loop q (rr_step q st) else Some st)"

definition roundRobin :: "Process list \<Rightarrow> int \<Rightarrow> Process list option" where
  "roundRobin p q = map_option (\<lambda>st. display (rr_procs st)) (rr_loop q (rr_init p))"

subsection \<open>Notions of the specification\<close>










section \<open>Facts about the assembler\<close>

subsection \<open>Evaluation of the helpers\<close>

lemma replicate_numeral_unfold: "replicate (numeral k) x = x # replicate (pred_numeral k) x"
  by (simp add: numeral_eq_Suc)

lemma hex_of_nat_sample:
  "hex_of_nat 0x1000 = ''1000''" "hex_of_nat 0x1003 = ''1003''" "hex_of_nat 0x1006 = ''1006''"
  "hex_of_nat 0x1009 = ''1009''" "hex_of_nat 0x100C = ''100C''" "hex_of_nat 0x100F = ''100F''"
  "hex_of_nat 0x1012 = ''1012''" "hex_of_nat 0x1015 = ''1015''" "hex_of_nat 0x1018 = ''1018''"
  "hex_of_nat 0x1B = ''1B''" "hex_of_nat 0x12 = ''12''" "hex_of_nat 10 = ''A''"
  by (simp_all add: hex_of_nat.simps hex_digit_def)

lemma toHex_sample:
  "toHex 0x1000 4 = ''1000''" "toHex 0x1003 4 = ''1003''" "toHex 0x1006 4 = ''1006''"
  "toHex 0x1009 4 = ''1009''" "toHex 0x100C 4 = ''100C''" "toHex 0x100F 4 = ''100F''"
  "toHex 0x1012 4 = ''1012''" "toHex 0x1015 4 = ''1015''" "toHex 0x1018 4 = ''1018''"
  "toHex 0x1B 6 = ''00001B''" "toHex 0x12 2 = ''12''" "toHex 10 6 = ''00000A''"
  by (simp_all add: toHex_def hex_of_nat_sample replicate_numeral_unfold)

lemma stoi_sample:
  "stoi ''1000'' 16 = Inr 0x1000" "stoi ''1'' 10 = Inr 1" "stoi ''3'' 10 = Inr 3"
  "stoi ''10'' 10 = Inr 10"
  by (simp_all add: stoi_def starts_with_def isspace_def digit_value_def)

lemma update_LC_sample:
  "update_LC lc ''LDA'' opd = Inr (lc + 3)" "update_LC lc ''ADD'' opd = Inr (lc + 3)"
  "update_LC lc ''JLT'' opd = Inr (lc + 3)" "update_LC lc ''STA'' opd = Inr (lc + 3)"
  "update_LC lc ''WORD'' opd = Inr (lc + 3)" "update_LC lc ''RESW'' ''1'' = Inr (lc + 3)"
  "update_LC lc ''RESB'' ''3'' = Inr (lc + 3)" "update_LC lc ''END'' opd = Inr lc"
  by (simp_all add: update_LC_def OPTAB_def stoi_sample)

lemma byte_length_EOF: "byte_length (drop 1 lit_EOF) = Some 3"
  by (simp add: byte_length_def starts_with_def toupper_def)

subsection \<open>Pass I on the sample program, line by line\<close>

lemmas line_defs = pass_one_line_def process_label_def write_intermediate_def handle_literal_def
  handle_END_def starts_with_def sample_state_def il_def

lemma sample_line1:
  "pass_one_line asm_init [''COPY'', ''START'', ''1000'']
     = Inr (sample_state Map.empty [] [il ''1000'' ''COPY'' ''START'' ''1000''] 0x1000, False)"
  by (simp add: line_defs asm_init_def stoi_sample toHex_sample)

lemma sample_line2:
  "sy ''LOOP'' = None \<Longrightarrow>
   pass_one_line (sample_state sy lt ifl 0x1000) [''LOOP'', ''LDA'', ''TEN'']
     = Inr (sample_state (sy(''LOOP'' \<mapsto> ''1000'')) lt
              (ifl @ [il ''1000'' ''LOOP'' ''LDA'' ''TEN'']) 0x1003, False)"
  by (simp add: line_defs update_LC_sample toHex_sample)

lemma sample_line3:
  "pass_one_line (sample_state sy lt ifl 0x1003) [[], ''ADD'', ''ONE'']
     = Inr (sample_state sy lt (ifl @ [il ''1003'' [] ''ADD'' ''ONE'']) 0x1006, False)"
  by (simp add: line_defs update_LC_sample toHex_sample)

lemma sample_line4:
  "pass_one_line (sample_state sy lt ifl 0x1006) [[], ''JLT'', ''LOOP'']
     = Inr (sample_state sy lt (ifl @ [il ''1006'' [] ''JLT'' ''LOOP'']) 0x1009, False)"
  by (simp add: line_defs update_LC_sample toHex_sample)

lemma sample_line5:
  "pass_one_line (sample_state sy lt ifl 0x1009) [[], ''STA'', ''RESULT'']
     = Inr (sample_state sy lt (ifl @ [il ''1009'' [] ''STA'' ''RESULT'']) 0x100C, False)"
  by (simp add: line_defs update_LC_sample toHex_sample)

lemma sample_line6:
  "pass_one_line (sample_state sy [] ifl 0x100C) [[], ''LDA'', lit_EOF]
     = Inr (sample_state sy [(lit_EOF, ([], 3))]
              (ifl @ [il ''100C'' [] ''LDA'' lit_EOF]) 0x100F, False)"
  using byte_length_EOF by (simp add: line_defs update_LC_sample toHex_sample)

lemma sample_line7:
  "sy ''TEN'' = None \<Longrightarrow>
   pass_one_line (sample_state sy lt ifl 0x100F) [''TEN'', ''WORD'', ''10'']
     = Inr (sample_state (sy(''TEN'' \<mapsto> ''100F'')) lt
              (ifl @ [il ''100F'' ''TEN'' ''WORD'' ''10'']) 0x1012, False)"
  by (simp add: line_defs update_LC_sample toHex_sample)

lemma sample_line8:
  "sy ''ONE'' = None \<Longrightarrow>
   pass_one_line (sample_state sy lt ifl 0x1012) [''ONE'', ''RESW'', ''1'']
     = Inr (sample_state (sy(''ONE'' \<mapsto> ''1012'')) lt
              (ifl @ [il ''1012'' ''ONE'' ''RESW'' ''1'']) 0x1015, False)"
  by (simp add: line_defs update_LC_sample toHex_sample)

lemma sample_line9:
  "sy ''RESULT'' = None \<Longrightarrow>
   pass_one_line (sample_state sy lt ifl 0x1015) [''RESULT'', ''RESB'', ''3'']
     = Inr (sample_state (sy(''RESULT'' \<mapsto> ''1015'')) lt
              (ifl @ [il ''1015'' ''RESULT'' ''RESB'' ''3'']) 0x1018, False)"
  by (simp add: line_defs update_LC_sample toHex_sample)

lemma sample_line10:
  "pass_one_line (sample_state sy [(lit_EOF, ([], 3))] ifl 0x1018) [[], ''END'', []]
     = Inr (sample_state sy [(lit_EOF, (''1018'', 3))] (ifl @ [il ''1018'' [] ''END'' []]) 0x101B,
            True)"
  by (simp add: line_defs update_LC_sample toHex_sample)

lemma sample_pass_one_loop: "pass_one_loop asm_init source_code = Inr sample_tables"
  by (simp add: source_code_def sample_tables_def sample_intermediate_def sample_line1
      sample_line2 sample_line3 sample_line4 sample_line5 sample_line6 sample_line7
      sample_line8 sample_line9 sample_line10)

lemma sample_pass_one:
  "pass_one source_code = Inr (sample_tables, ''COPY'', ''1000'', 0x1B)"
  by (simp add: pass_one_def sample_pass_one_loop sample_tables_def sample_state_def toHex_sample)

subsection \<open>Pass II on the sample program\<close>

lemma header_sample: "header_record ''COPY'' ''1000'' 0x1B = ''HCOPY  100000001B''"
  by (simp add: header_record_def toHex_sample replicate_numeral_unfold)

lemma instruction_code_sample:
  "instruction_code sample_tables c ''TEN'' = (c @ ''100F'', [])"
  "instruction_code sample_tables c ''ONE'' = (c @ ''1012'', [])"
  "instruction_code sample_tables c ''LOOP'' = (c @ ''1000'', [])"
  "instruction_code sample_tables c ''RESULT'' = (c @ ''1015'', [])"
  "instruction_code sample_tables c lit_EOF = (c @ ''1018'', [])"
  by (simp_all add: instruction_code_def sample_tables_def sample_state_def starts_with_def)

lemma hexToByteCode_sample: "hexToByteCode ''10'' = ''00000A''"
  by (simp add: hexToByteCode_def starts_with_def toupper_def isdigit_def stoi_sample toHex_sample)

lemma sample_pass_two_loop:
  "pass_two_loop sample_tables
      \<lparr>object_program = hdr, text_record_start_addr = [], current_text_record_code = [],
       warnings = []\<rparr>
      sample_intermediate
   = \<lparr>object_program = hdr @ [''T10001200100F1810123810000C101500101800000A''],
      text_record_start_addr = [], current_text_record_code = [], warnings = []\<rparr>"
  by (simp add: pass_two_loop_def sample_intermediate_def il_def pass_two_line_def OPTAB_def
      instruction_code_sample hexToByteCode_sample build_text_record_def
      MAX_TEXT_RECORD_LENGTH_def t_record_def toHex_sample)

lemma sample_pass_two:
  "object_program (pass_two sample_tables sample_intermediate ''COPY'' ''1000'' 0x1B)
     = sample_object_program"
  "warnings (pass_two sample_tables sample_intermediate ''COPY'' ''1000'' 0x1B) = []"
  by (simp_all add: pass_two_def sample_pass_two_loop header_sample sample_object_program_def)

lemma sample_main:
  "main_asm = Inr (sample_tables, pass_two sample_tables sample_intermediate ''COPY'' ''1000'' 0x1B)"
  by (simp add: main_asm_def sample_pass_one) (simp add: sample_tables_def sample_state_def)

text \<open>
  C1.  On the fixed program of \<open>main\<close>, Pass I leaves a symbol table that maps \<open>LOOP\<close> to
  \<open>1000\<close>, \<open>TEN\<close> to \<open>100F\<close>, \<open>ONE\<close> to \<open>1012\<close> and \<open>RESULT\<close> to \<open>1015\<close>; the literal
  \<^verbatim>\<open>=C'EOF'\<close> has address \<open>1018\<close> and length 3; the program length that Pass I returns is
  \<open>0x1B\<close>, and the header record that Pass II emits first ends with it, as six
  hexadecimal digits.
\<close>

theorem C1_sample_program:
  "\<exists>st p name start len.
     pass_one source_code = Inr (st, name, start, len)
     \<and> main_asm = Inr (st, p)
     \<and> SYMTAB st ''LOOP'' = Some ''1000'' \<and> SYMTAB st ''TEN'' = Some ''100F''
     \<and> SYMTAB st ''ONE'' = Some ''1012'' \<and> SYMTAB st ''RESULT'' = Some ''1015''
     \<and> map_of (LITTAB st) lit_EOF = Some (''1018'', 3)
     \<and> len = 0x1B
     \<and> hd (object_program p) = header_record name start len
     \<and> hd (object_program p) = ''HCOPY  '' @ ''1000'' @ ''00001B''
     \<and> toHex 0x1B 6 = ''00001B''"
proof -
  let ?p = "pass_two sample_tables sample_intermediate ''COPY'' ''1000'' 0x1B"
  have tabs: "SYMTAB sample_tables ''LOOP'' = Some ''1000''"
    "SYMTAB sample_tables ''TEN'' = Some ''100F''"
    "SYMTAB sample_tables ''ONE'' = Some ''1012''"
    "SYMTAB sample_tables ''RESULT'' = Some ''1015''"
    "map_of (LITTAB sample_tables) lit_EOF = Some (''1018'', 3)"
    by (simp_all add: sample_tables_def sample_state_def)
  have hdr: "hd (object_program ?p) = ''HCOPY  '' @ ''1000'' @ ''00001B''"
    by (simp add: sample_pass_two sample_object_program_def)
  then have "hd (object_program ?p) = header_record ''COPY'' ''1000'' 0x1B"
    by (simp add: header_sample)
  with tabs hdr sample_pass_one sample_main toHex_sample(10) show ?thesis
    by blast
qed

subsection \<open>What the steps of Pass I leave alone\<close>

lemma write_intermediate_fields [simp]:
  "SYMTAB (write_intermediate st a b c) = SYMTAB st"
  "LITTAB (write_intermediate st a b c) = LITTAB st"
  "LC (write_intermediate st a b c) = LC st"
  "cerr (write_intermediate st a b c) = cerr st"
  "intermediate_file (write_intermediate st a b c) = intermediate_file st @ [il (toHex (LC st) 4) a b c]"
  by (simp_all add: write_intermediate_def il_def)

lemma handle_literal_fields [simp]:
  "SYMTAB (handle_literal st opd) = SYMTAB st"
  "LC (handle_literal st opd) = LC st"
  "cerr (handle_literal st opd) = cerr st"
  "intermediate_file (handle_literal st opd) = intermediate_file st"
  by (simp_all add: handle_literal_def)

lemma handle_END_fields [simp]:
  "SYMTAB (handle_END st a b c) = SYMTAB st"
  "cerr (handle_END st a b c) = cerr st"
  "intermediate_file (handle_END st a b c) = intermediate_file st @ [il (toHex (LC st) 4) a b c]"
  by (simp_all add: handle_END_def split: prod.splits)

lemma process_label_fields [simp]:
  "LITTAB (process_label st lbl) = LITTAB st"
  "LC (process_label st lbl) = LC st"
  "intermediate_file (process_label st lbl) = intermediate_file st"
  by (simp_all add: process_label_def)

lemma process_label_SYMTAB:
  "lbl \<noteq> [] \<Longrightarrow> SYMTAB (process_label st lbl) = (SYMTAB st)(lbl \<mapsto> toHex (LC st) 4)"
  by (simp add: process_label_def)

lemma process_label_cerr:
  "lbl \<noteq> [] \<Longrightarrow> cerr (process_label st lbl)
     = cerr st @ (if SYMTAB st lbl \<noteq> None then [duplicate_message lbl (LC st)] else [])"
  by (simp add: process_label_def)

text \<open>A line other than \<open>START\<close>, when \<open>stoi\<close> does not throw.\<close>

lemma pass_one_line_other:
  assumes "opc \<noteq> ''START''"
    and "pass_one_line st (lbl # opc # opd # rest) = Inr (st', stop)"
  shows "\<exists>lc. update_LC (LC st) opc opd = Inr lc
           \<and> stop = (opc = ''END'')
           \<and> SYMTAB st' = SYMTAB (process_label st lbl)
           \<and> cerr st' = cerr (process_label st lbl)"
  using assms
  by (auto simp: pass_one_line_def Let_def split: sum.splits if_splits)

text \<open>
  C7, amended.  In Pass I, a line whose opcode is not \<open>START\<close> and whose label is not
  empty, once the line is through (no \<open>stoi\<close> has thrown): the symbol table maps the label
  to the location counter the line started with, whatever it held before, and every other
  entry is as it was; the duplicate-label message goes to \<open>cerr\<close> exactly when the label
  was already in the table.
\<close>

theorem C7_label_recorded:
  assumes "lbl \<noteq> []" and "opc \<noteq> ''START''"
    and "pass_one_line st (lbl # opc # opd # rest) = Inr (st', stop)"
  shows "SYMTAB st' = (SYMTAB st)(lbl \<mapsto> toHex (LC st) 4)
         \<and> cerr st' = cerr st @ (if SYMTAB st lbl \<noteq> None then [duplicate_message lbl (LC st)] else [])"
  using pass_one_line_other [OF assms(2,3)] assms(1)
  by (auto simp: process_label_SYMTAB process_label_cerr)

text \<open>
  The claim as first stated spoke of every line.  A \<open>START\<close> line takes its label as the
  program name and goes on to the next line before the label step: \<open>COPY\<close> of the sample
  program never enters the table, and a \<open>START\<close> line whose label is already in the table
  prints nothing and leaves the old address.
\<close>

theorem C7_counterexample:
  "pass_one_loop asm_init source_code = Inr sample_tables
   \<and> SYMTAB sample_tables ''COPY'' = None
   \<and> pass_one_line (sample_state [''LOOP'' \<mapsto> ''1000''] [] [] 0x1003) [''LOOP'', ''START'', ''1000'']
       = Inr (sample_state [''LOOP'' \<mapsto> ''1000''] [] [il ''1000'' ''LOOP'' ''START'' ''1000''] 0x1000
                \<lparr>program_name := ''LOOP''\<rparr>, False)"
  by (simp add: sample_pass_one_loop)
     (simp add: sample_tables_def sample_state_def pass_one_line_def stoi_sample toHex_sample
        write_intermediate_def il_def)

theorem C7_witness:
  "\<exists>st'. pass_one_line (sample_state [''LOOP'' \<mapsto> ''1000''] [] [] 0x1003) [''LOOP'', ''ADD'', ''ONE'']
           = Inr (st', False)
         \<and> SYMTAB st' ''LOOP'' = Some ''1003''
         \<and> cerr st' = [duplicate_message ''LOOP'' 0x1003]"
proof -
  let ?st = "sample_state [''LOOP'' \<mapsto> ''1000''] [] [] 0x1003"
  obtain r where r: "pass_one_line ?st [''LOOP'', ''ADD'', ''ONE''] = Inr (r, False)"
    by (simp add: pass_one_line_def update_LC_sample)
  have "SYMTAB r = (SYMTAB ?st)(''LOOP'' \<mapsto> toHex (LC ?st) 4)
        \<and> cerr r = cerr ?st @ (if SYMTAB ?st ''LOOP'' \<noteq> None
                                then [duplicate_message ''LOOP'' (LC ?st)] else [])"
    by (rule C7_label_recorded [OF _ _ r]) simp_all
  then have "SYMTAB r ''LOOP'' = Some ''1003'' \<and> cerr r = [duplicate_message ''LOOP'' 0x1003]"
    by (simp add: sample_state_def toHex_sample)
  with r show ?thesis by blast
qed

subsection \<open>Pass II, one line\<close>

lemma OPTAB_directives [simp]:
  "OPTAB ''RESW'' = None" "OPTAB ''RESB'' = None" "OPTAB ''START'' = None"
  "OPTAB ''END'' = None" "OPTAB ''WORD'' = None" "OPTAB ''BYTE'' = None"
  by (simp_all add: OPTAB_def)

lemma pass_two_line_reserve:
  "opcode line = ''RESW'' \<or> opcode line = ''RESB'' \<Longrightarrow>
   pass_two_line tabs st line =
     st\<lparr>object_program := object_program st
           @ (if current_text_record_code st \<noteq> []
              then [t_record (text_record_start_addr st) (current_text_record_code st)] else []),
        current_text_record_code := [], text_record_start_addr := []\<rparr>"
  by (auto simp: pass_two_line_def)


lemma pass_two_line_instruction:
  "OPTAB (opcode line) = Some (c, n) \<Longrightarrow>
   pass_two_line tabs st line =
     build_text_record (st\<lparr>warnings := warnings st @ snd (instruction_code tabs c (operand line))\<rparr>)
       line (fst (instruction_code tabs c (operand line)))"
  by (simp add: pass_two_line_def split: prod.splits)


lemma build_text_record_overflow:
  "object_code \<noteq> [] \<Longrightarrow>
   MAX_TEXT_RECORD_LENGTH < length (current_text_record_code st) + length object_code \<Longrightarrow>
   build_text_record st line object_code =
     st\<lparr>object_program := object_program st
           @ [t_record (if current_text_record_code st = [] then location_counter line
                        else text_record_start_addr st) (current_text_record_code st)],
        text_record_start_addr := location_counter line,
        current_text_record_code := object_code\<rparr>"
  by (auto simp: build_text_record_def Let_def)




subsection \<open>Where the bytes of the text records come from\<close>

lemma pass_two_line_object_code:
  "\<exists>w. pass_two_line tabs st line =
     (if opcode line = ''RESW'' \<or> opcode line = ''RESB'' then
        st\<lparr>object_program := object_program st
              @ (if current_text_record_code st \<noteq> []
                 then [t_record (text_record_start_addr st) (current_text_record_code st)] else []),
           current_text_record_code := [], text_record_start_addr := []\<rparr>
      else build_text_record (st\<lparr>warnings := w\<rparr>) line (line_object_code tabs line))"
proof (cases "OPTAB (opcode line)")
  case (Some cn)
  then have "opcode line \<noteq> ''RESW''" "opcode line \<noteq> ''RESB''"
    by auto
  with Some show ?thesis
    by (cases cn) (auto simp: pass_two_line_instruction line_object_code_def)
next
  case None
  have "pass_two_line tabs st line =
     (if opcode line = ''RESW'' \<or> opcode line = ''RESB'' then
        st\<lparr>object_program := object_program st
              @ (if current_text_record_code st \<noteq> []
                 then [t_record (text_record_start_addr st) (current_text_record_code st)] else []),
           current_text_record_code := [], text_record_start_addr := []\<rparr>
      else build_text_record (st\<lparr>warnings := warnings st\<rparr>) line (line_object_code tabs line))"
    using None by (auto simp: pass_two_line_def line_object_code_def build_text_record_def)
  then show ?thesis by blast
qed

lemma build_text_record_chunks:
  "\<exists>chunks. object_program (build_text_record st line oc)
       = object_program st @ map (\<lambda>(a, c). t_record a c) chunks
     \<and> concat (map snd chunks) @ current_text_record_code (build_text_record st line oc)
       = current_text_record_code st @ oc"
proof (cases "oc \<noteq> [] \<and> MAX_TEXT_RECORD_LENGTH < length (current_text_record_code st) + length oc")
  case True
  let ?a = "if current_text_record_code st = [] then location_counter line
            else text_record_start_addr st"
  from True have "object_program (build_text_record st line oc)
       = object_program st @ map (\<lambda>(a, c). t_record a c) [(?a, current_text_record_code st)]
     \<and> concat (map snd [(?a, current_text_record_code st)])
         @ current_text_record_code (build_text_record st line oc)
       = current_text_record_code st @ oc"
    by (simp add: build_text_record_overflow)
  then show ?thesis by blast
next
  case False
  then have "object_program (build_text_record st line oc)
       = object_program st @ map (\<lambda>(a, c). t_record a c) []
     \<and> concat (map snd ([] :: (string \<times> string) list))
         @ current_text_record_code (build_text_record st line oc)
       = current_text_record_code st @ oc"
    by (auto simp: build_text_record_def Let_def)
  then show ?thesis by blast
qed

lemma pass_two_line_chunks:
  "\<exists>chunks. object_program (pass_two_line tabs st line)
       = object_program st @ map (\<lambda>(a, c). t_record a c) chunks
     \<and> concat (map snd chunks) @ current_text_record_code (pass_two_line tabs st line)
       = current_text_record_code st @ line_object_code tabs line"
proof (cases "opcode line = ''RESW'' \<or> opcode line = ''RESB''")
  case True
  then have oc: "line_object_code tabs line = []"
    by (auto simp: line_object_code_def)
  let ?chunks = "if current_text_record_code st \<noteq> []
                 then [(text_record_start_addr st, current_text_record_code st)] else []"
  have "object_program (pass_two_line tabs st line)
       = object_program st @ map (\<lambda>(a, c). t_record a c) ?chunks
     \<and> concat (map snd ?chunks) @ current_text_record_code (pass_two_line tabs st line)
       = current_text_record_code st @ line_object_code tabs line"
    using True by (simp add: pass_two_line_reserve oc)
  then show ?thesis by blast
next
  case False
  with pass_two_line_object_code [of tabs st line] obtain w where
    "pass_two_line tabs st line = build_text_record (st\<lparr>warnings := w\<rparr>) line (line_object_code tabs line)"
    by auto
  with build_text_record_chunks [of "st\<lparr>warnings := w\<rparr>" line "line_object_code tabs line"]
  show ?thesis by simp
qed

lemma pass_two_loop_chunks:
  "\<exists>chunks. object_program (pass_two_loop tabs st ls)
       = object_program st @ map (\<lambda>(a, c). t_record a c) chunks
     \<and> concat (map snd chunks) @ current_text_record_code (pass_two_loop tabs st ls)
       = current_text_record_code st @ concat (map (line_object_code tabs) ls)"
proof (induction ls arbitrary: st)
  case Nil
  have "object_program st = object_program st @ map (\<lambda>(a, c). t_record a c) []
     \<and> concat (map snd ([] :: (string \<times> string) list)) @ current_text_record_code st
       = current_text_record_code st @ concat (map (line_object_code tabs) [])"
    by simp
  then show ?case unfolding pass_two_loop_def foldl_Nil by blast
next
  case (Cons l ls)
  obtain c1 where c1: "object_program (pass_two_line tabs st l)
       = object_program st @ map (\<lambda>(a, c). t_record a c) c1"
     "concat (map snd c1) @ current_text_record_code (pass_two_line tabs st l)
       = current_text_record_code st @ line_object_code tabs l"
    using pass_two_line_chunks by blast
  obtain c2 where c2: "object_program (pass_two_loop tabs (pass_two_line tabs st l) ls)
       = object_program (pass_two_line tabs st l) @ map (\<lambda>(a, c). t_record a c) c2"
     "concat (map snd c2) @ current_text_record_code (pass_two_loop tabs (pass_two_line tabs st l) ls)
       = current_text_record_code (pass_two_line tabs st l) @ concat (map (line_object_code tabs) ls)"
    using Cons.IH by blast
  have step: "pass_two_loop tabs st (l # ls) = pass_two_loop tabs (pass_two_line tabs st l) ls"
    by (simp add: pass_two_loop_def)
  have "object_program (pass_two_loop tabs st (l # ls))
       = object_program st @ map (\<lambda>(a, c). t_record a c) (c1 @ c2)"
    by (simp add: step c1(1) c2(1))
  moreover have "concat (map snd (c1 @ c2)) @ current_text_record_code (pass_two_loop tabs st (l # ls))
       = current_text_record_code st @ concat (map (line_object_code tabs) (l # ls))"
  proof -
    have "concat (map snd (c1 @ c2)) @ current_text_record_code (pass_two_loop tabs st (l # ls))
        = concat (map snd c1) @ (concat (map snd c2)
            @ current_text_record_code (pass_two_loop tabs (pass_two_line tabs st l) ls))"
      by (simp add: step)
    also have "\<dots> = (concat (map snd c1) @ current_text_record_code (pass_two_line tabs st l))
            @ concat (map (line_object_code tabs) ls)"
      by (simp only: c2(2) append_assoc)
    also have "\<dots> = current_text_record_code st @ concat (map (line_object_code tabs) (l # ls))"
      by (simp only: c1(2)) simp
    finally show ?thesis .
  qed
  ultimately show ?case by blast
qed

text \<open>
  The object program of \<open>pass_two\<close>: the header, text records, the end record; the text
  records together hold the object code of the lines of the intermediate file, in order,
  and nothing else.
\<close>

lemma pass_two_records:
  "\<exists>chunks. object_program (pass_two tabs ifile name start_addr program_len)
       = header_record name start_addr program_len # map (\<lambda>(a, c). t_record a c) chunks
         @ [''E'' @ start_addr]
     \<and> concat (map snd chunks) = concat (map (line_object_code tabs) ifile)"
proof -
  let ?st0 = "\<lparr>object_program = [header_record name start_addr program_len],
                 text_record_start_addr = [], current_text_record_code = [], warnings = []\<rparr>"
  let ?st1 = "pass_two_loop tabs ?st0 ifile"
  obtain c1 where c1: "object_program ?st1 = object_program ?st0 @ map (\<lambda>(a, c). t_record a c) c1"
     "concat (map snd c1) @ current_text_record_code ?st1
       = current_text_record_code ?st0 @ concat (map (line_object_code tabs) ifile)"
    using pass_two_loop_chunks by blast
  let ?last = "if current_text_record_code ?st1 \<noteq> []
               then [(text_record_start_addr ?st1, current_text_record_code ?st1)] else []"
  have "object_program (pass_two tabs ifile name start_addr program_len)
       = header_record name start_addr program_len # map (\<lambda>(a, c). t_record a c) (c1 @ ?last)
         @ [''E'' @ start_addr]"
    by (simp add: pass_two_def Let_def c1(1))
  moreover have "concat (map snd (c1 @ ?last)) = concat (map (line_object_code tabs) ifile)"
    using c1(2) by (cases "current_text_record_code ?st1 = []") simp_all
  ultimately show ?thesis by blast
qed

subsection \<open>The intermediate file holds source lines only\<close>

lemma pass_one_line_intermediate:
  assumes "pass_one_line st line = Inr (st', stop)"
  shows "3 \<le> length line
         \<and> map line_fields (intermediate_file st') = map line_fields (intermediate_file st) @ [take 3 line]"
proof -
  from assms obtain lbl opc opd rest where line: "line = lbl # opc # opd # rest"
    by (auto simp: pass_one_line_def split: list.splits)
  from assms have "\<exists>lc. intermediate_file st' = intermediate_file st @ [il lc lbl opc opd]"
    unfolding line
    by (auto simp: pass_one_line_def Let_def split: sum.splits if_splits)
  then show ?thesis
    by (auto simp: line line_fields_def il_def)
qed

lemma pass_one_loop_intermediate:
  "pass_one_loop st src = Inr st' \<Longrightarrow>
   \<exists>k\<le>length src. map line_fields (intermediate_file st')
       = map line_fields (intermediate_file st) @ map (take 3) (take k src)"
proof (induction src arbitrary: st)
  case Nil
  then show ?case by simp
next
  case (Cons line src)
  from Cons.prems obtain s1 stop where s1: "pass_one_line st line = Inr (s1, stop)"
    by (auto split: sum.splits)
  note one = pass_one_line_intermediate [OF s1]
  show ?case
  proof (cases stop)
    case True
    with Cons.prems s1 have "st' = s1" by simp
    with one have "map line_fields (intermediate_file st')
       = map line_fields (intermediate_file st) @ map (take 3) (take 1 (line # src))"
      by simp
    then show ?thesis
      by (intro exI [of _ 1]) simp
  next
    case False
    with Cons.prems s1 have "pass_one_loop s1 src = Inr st'" by simp
    from Cons.IH [OF this] obtain k where k: "k \<le> length src"
      "map line_fields (intermediate_file st')
         = map line_fields (intermediate_file s1) @ map (take 3) (take k src)"
      by blast
    with one have "map line_fields (intermediate_file st')
       = map line_fields (intermediate_file st) @ map (take 3) (take (Suc k) (line # src))"
      by simp
    with k(1) show ?thesis
      by (intro exI [of _ "Suc k"]) simp
  qed
qed

lemma hexToByteCode_EOF: "hexToByteCode (drop 1 lit_EOF) = ''454F46''"
  by (simp add: hexToByteCode_def starts_with_def toupper_def substr2_def char_to_int_def
      toHex_def hex_of_nat.simps hex_digit_def)

lemma sample_no_literal_bytes:
  "list_all (\<lambda>r. str_find r ''454F46'' = None) sample_object_program"
  by (simp add: sample_object_program_def starts_with_def)

text \<open>
  C9.  The object program of Pass II is the header record, text records and the end
  record, and the text records hold, in order, the object code of the lines of the
  intermediate file and nothing else; an \<open>END\<close> line has no object code; the
  intermediate file that Pass I leaves holds one line for each source line it went
  through, with the fields of that line, so no line stands for the literal pool.  For
  the sample program the literal \<^verbatim>\<open>=C'EOF'\<close> has address \<open>1018\<close> and the bytes \<open>454F46\<close>,
  and no record of the object program contains them.
\<close>

theorem C9_literal_pool_not_emitted:
  "(\<exists>chunks. object_program (pass_two tabs ifile name start_addr program_len)
       = header_record name start_addr program_len # map (\<lambda>(a, c). t_record a c) chunks
         @ [''E'' @ start_addr]
     \<and> concat (map snd chunks) = concat (map (line_object_code tabs) ifile))
   \<and> (opcode line = ''END'' \<longrightarrow> line_object_code tabs line = [])
   \<and> (pass_one_loop asm_init src = Inr st \<longrightarrow>
        (\<exists>k\<le>length src. map line_fields (intermediate_file st) = map (take 3) (take k src)))
   \<and> (\<exists>p. main_asm = Inr (sample_tables, p)
        \<and> map_of (LITTAB sample_tables) lit_EOF = Some (''1018'', 3)
        \<and> hexToByteCode (drop 1 lit_EOF) = ''454F46''
        \<and> object_program p = sample_object_program
        \<and> list_all (\<lambda>r. str_find r ''454F46'' = None) (object_program p))"
proof (intro conjI impI)
  show "\<exists>chunks. object_program (pass_two tabs ifile name start_addr program_len)
       = header_record name start_addr program_len # map (\<lambda>(a, c). t_record a c) chunks
         @ [''E'' @ start_addr]
     \<and> concat (map snd chunks) = concat (map (line_object_code tabs) ifile)"
    by (rule pass_two_records)
next
  assume "opcode line = ''END''"
  then show "line_object_code tabs line = []"
    by (simp add: line_object_code_def)
next
  assume "pass_one_loop asm_init src = Inr st"
  from pass_one_loop_intermediate [OF this]
  show "\<exists>k\<le>length src. map line_fields (intermediate_file st) = map (take 3) (take k src)"
    by (simp add: asm_init_def)
next
  let ?p = "pass_two sample_tables sample_intermediate ''COPY'' ''1000'' 0x1B"
  have "main_asm = Inr (sample_tables, ?p)"
    by (rule sample_main)
  moreover have "map_of (LITTAB sample_tables) lit_EOF = Some (''1018'', 3)"
    by (simp add: sample_tables_def sample_state_def)
  moreover note hexToByteCode_EOF
  moreover have "object_program ?p = sample_object_program"
    by (rule sample_pass_two)
  moreover have "list_all (\<lambda>r. str_find r ''454F46'' = None) (object_program ?p)"
    by (simp only: sample_pass_two sample_no_literal_bytes)
  ultimately show "\<exists>p. main_asm = Inr (sample_tables, p)
        \<and> map_of (LITTAB sample_tables) lit_EOF = Some (''1018'', 3)
        \<and> hexToByteCode (drop 1 lit_EOF) = ''454F46''
        \<and> object_program p = sample_object_program
        \<and> list_all (\<lambda>r. str_find r ''454F46'' = None) (object_program p)"
    by blast
qed

theorem C9_witness:
  "line_object_code sample_tables (il ''1018'' [] ''END'' []) = []
   \<and> (\<exists>k\<le>length source_code.
        map line_fields (intermediate_file sample_tables) = map (take 3) (take k source_code))"
proof -
  have "opcode (il ''1018'' [] ''END'' []) = ''END''"
    by (simp add: il_def)
  with C9_literal_pool_not_emitted [of sample_tables sample_intermediate "''COPY''" "''1000''" "0x1B"
      "il ''1018'' [] ''END'' []" source_code sample_tables] sample_pass_one_loop
  show ?thesis by blast
qed

section \<open>Facts about the macroprocessor\<close>

subsection \<open>The program of \<open>main\<close>\<close>

lemma to_string_small: "to_string 0 = ''0''" "to_string 1 = ''1''" "to_string 2 = ''2''"
    "to_string (Suc 0) = ''1''" "to_string (Suc (Suc 0)) = ''2''"
  by (simp_all add: to_string.simps dec_digit_def)

lemmas macro_eval = pass_one_line_m_def tokenize_def isspace_def parse_line_def
  extract_parameters_def to_string_small substitute_def replace_first_def starts_with_def

lemma sample_macro_pass_one: "pass_one_m source_code_m = sample_macro_state"
  by (simp add: pass_one_m_def pass_one_from_def source_code_m_def macro_init_def macro_eval
      sample_macro_state_def sample_MDT_def sample_intermediate_txt_def)
     (simp add: eval_nat_numeral)

lemma sample_formals_CALC:
  "formal_to_placeholder (pass_one_m (take 3 source_code_m)) = [(''&A'', ''#0''), (''&B'', ''#1'')]"
  by (simp add: pass_one_m_def pass_one_from_def source_code_m_def macro_init_def macro_eval)

lemma sample_actuals_CALC:
  "build_actual_map 0 (extract_parameters ''X,Y'') [] = [(''#0'', ''X''), (''#1'', ''Y'')]"
  by (simp add: extract_parameters_def to_string_small)

lemma is_MEND_sample:
  "\<not> is_MEND (''#0'' @ [tab] @ ''ADD'' @ [tab] @ ''#1'')"
  "\<not> is_MEND ([tab] @ ''SUB'' @ [tab] @ ''#1'')"
  "\<not> is_MEND (''#0'' @ [tab] @ ''LOAD'' @ [tab] @ ''#1'')"
  "\<not> is_MEND ([tab] @ ''STORE'' @ [tab] @ ''#2'')"
  "is_MEND ''MEND''"
  by (simp_all add: is_MEND_def tokenize_def isspace_def)

lemma expand_step:
  "i < length mdt \<Longrightarrow> \<not> is_MEND (mdt ! i) \<Longrightarrow>
     expand mdt am opc i = substitute am (mdt ! i) # expand mdt am opc (Suc i)"
  "i < length mdt \<Longrightarrow> is_MEND (mdt ! i) \<Longrightarrow> expand mdt am opc i = []"
  "length mdt \<le> i \<Longrightarrow> expand mdt am opc i = [indexing_message opc]"
  by (simp_all add: expand.simps [of mdt am opc i])

lemma sample_expand_CALC_X_Y:
  "expand sample_MDT [(''#0'', ''X''), (''#1'', ''Y'')] opc (Suc 0)
     = [''X'' @ [tab] @ ''ADD'' @ [tab] @ ''Y'', [tab] @ ''SUB'' @ [tab] @ ''Y'']"
  using is_MEND_sample
  by (simp add: expand_step sample_MDT_def substitute_def replace_first_def starts_with_def)

lemma sample_expand_CALC_Y_Z:
  "expand sample_MDT [(''#0'', ''Y''), (''#1'', ''Z'')] opc (Suc 0)
     = [''Y'' @ [tab] @ ''ADD'' @ [tab] @ ''Z'', [tab] @ ''SUB'' @ [tab] @ ''Z'']"
  using is_MEND_sample
  by (simp add: expand_step sample_MDT_def substitute_def replace_first_def starts_with_def)

lemma sample_expand_INIT:
  "expand sample_MDT [(''#0'', ''TEMP''), (''#1'', ''ONE''), (''#2'', ''TWO'')] opc 5
     = [''TEMP'' @ [tab] @ ''LOAD'' @ [tab] @ ''ONE'', [tab] @ ''STORE'' @ [tab] @ ''TWO'']"
  using is_MEND_sample
  by (simp add: expand_step sample_MDT_def substitute_def replace_first_def starts_with_def)

lemma sample_call_CALC_X_Y:
  "pass_two_line_m sample_macro_state ([tab] @ ''CALC'' @ [tab] @ ''X,Y'')
     = [''X'' @ [tab] @ ''ADD'' @ [tab] @ ''Y'', [tab] @ ''SUB'' @ [tab] @ ''Y'']"
  by (simp add: pass_two_line_m_def tokenize_def isspace_def parse_line_def
      extract_parameters_def to_string_small sample_macro_state_def sample_expand_CALC_X_Y)

lemma sample_getlines:
  "getlines (file_content sample_intermediate_txt) = sample_intermediate_txt"
  by (simp add: getlines_def file_content_def sample_intermediate_txt_def)

lemma sample_macro_pass_two: "pass_two_m sample_macro_state = sample_output_txt"
  unfolding pass_two_m_def
  by (simp add: sample_macro_state_def sample_getlines)
     (simp add: pass_two_lines_def sample_intermediate_txt_def pass_two_line_m_def tokenize_def
        isspace_def parse_line_def extract_parameters_def to_string_small
        sample_expand_CALC_X_Y sample_expand_CALC_Y_Z sample_expand_INIT sample_output_txt_def)

text \<open>
  C4.  Pass I on the program of \<open>main\<close> records \<open>CALC\<close> with the formal parameters \<open>&A\<close>
  and \<open>&B\<close>, which stand as \<open>#0\<close> and \<open>#1\<close> in the two lines of its body.  In Pass II the
  call \<open>CALC X,Y\<close> binds \<open>#0\<close> to \<open>X\<close> and \<open>#1\<close> to \<open>Y\<close> and writes exactly two lines, with
  the tokens \<open>X ADD Y\<close> and \<open>SUB Y\<close> (the fields are separated by tabs, as in the source
  program); they are lines 6 and 7 of the output of \<open>main\<close>.
\<close>

theorem C4_expand_CALC_X_Y:
  "MNT (pass_one_m source_code_m) ''CALC'' = Some \<lparr>start_index = 0, num_parameters = 2\<rparr>
   \<and> formal_to_placeholder (pass_one_m (take 3 source_code_m)) = [(''&A'', ''#0''), (''&B'', ''#1'')]
   \<and> take 4 (MDT (pass_one_m source_code_m))
       = [''CALC'' @ [tab] @ ''MACRO'' @ [tab] @ ''&A,&B'', ''#0'' @ [tab] @ ''ADD'' @ [tab] @ ''#1'',
          [tab] @ ''SUB'' @ [tab] @ ''#1'', ''MEND'']
   \<and> build_actual_map 0 (extract_parameters ''X,Y'') [] = [(''#0'', ''X''), (''#1'', ''Y'')]
   \<and> pass_two_line_m (pass_one_m source_code_m) ([tab] @ ''CALC'' @ [tab] @ ''X,Y'')
       = [''X'' @ [tab] @ ''ADD'' @ [tab] @ ''Y'', [tab] @ ''SUB'' @ [tab] @ ''Y'']
   \<and> map tokenize (pass_two_line_m (pass_one_m source_code_m) ([tab] @ ''CALC'' @ [tab] @ ''X,Y''))
       = [[''X'', ''ADD'', ''Y''], [''SUB'', ''Y'']]
   \<and> main_m = sample_output_txt
   \<and> take 2 (drop 5 main_m) = [''X'' @ [tab] @ ''ADD'' @ [tab] @ ''Y'', [tab] @ ''SUB'' @ [tab] @ ''Y'']"
proof -
  have "MNT sample_macro_state ''CALC'' = Some \<lparr>start_index = 0, num_parameters = 2\<rparr>"
    by (simp add: sample_macro_state_def)
  moreover have "take 4 (MDT sample_macro_state)
       = [''CALC'' @ [tab] @ ''MACRO'' @ [tab] @ ''&A,&B'', ''#0'' @ [tab] @ ''ADD'' @ [tab] @ ''#1'',
          [tab] @ ''SUB'' @ [tab] @ ''#1'', ''MEND'']"
    by (simp add: sample_macro_state_def sample_MDT_def)
  moreover have "map tokenize [''X'' @ [tab] @ ''ADD'' @ [tab] @ ''Y'', [tab] @ ''SUB'' @ [tab] @ ''Y'']
       = [[''X'', ''ADD'', ''Y''], [''SUB'', ''Y'']]"
    by (simp add: tokenize_def isspace_def)
  moreover have "main_m = sample_output_txt"
    by (simp add: main_m_def sample_macro_pass_one sample_macro_pass_two)
  moreover have "take 2 (drop 5 sample_output_txt)
       = [''X'' @ [tab] @ ''ADD'' @ [tab] @ ''Y'', [tab] @ ''SUB'' @ [tab] @ ''Y'']"
    by (simp add: sample_output_txt_def)
  ultimately show ?thesis
    using sample_formals_CALC sample_actuals_CALC sample_call_CALC_X_Y
    by (simp add: sample_macro_pass_one)
qed

subsection \<open>Replacing the first occurrence and replacing every occurrence\<close>

lemma str_find_Cons:
  "pat \<noteq> [] \<Longrightarrow> \<not> starts_with (c # cs) pat \<Longrightarrow>
   str_find (c # cs) pat = map_option Suc (str_find cs pat)"
  by (simp split: option.splits)







subsection \<open>The map of formal parameters\<close>







subsection \<open>Pass I, line after line\<close>
















section \<open>Error handling in the assembler and the macroprocessor\<close>

subsection \<open>Errors do not stop a pass\<close>











section \<open>Facts about the page replacement simulator\<close>

lemma capacity_nonzero:
  assumes "capacity \<noteq> 0"
  shows "size_lt_capacity 0 capacity"
proof -
  have "is_up (scast :: cpp_int \<Rightarrow> size_t)"
    by (simp add: is_up_def source_size target_size)
  then have "scast (scast capacity :: size_t) = capacity"
    by (rule scast_up_scast_id)
  with assms have "(scast capacity :: size_t) \<noteq> 0"
    by auto
  then show ?thesis
    by (simp add: size_lt_capacity_def unat_gt_0)
qed

lemma full_nonempty:
  "capacity \<noteq> 0 \<Longrightarrow> \<not> size_lt_capacity n capacity \<Longrightarrow> n \<noteq> 0"
  using capacity_nonzero [of capacity] by (cases n) auto

text \<open>
  Counting along a run: if every step adds one to the counter exactly at a reference
  that is not resident, the counter at the end is the number of such references.
\<close>

lemma fault_count_Suc:
  "fault_count resident (Suc n) = fault_count resident n + (if resident n then 0 else 1)"
  by (simp add: fault_count_def)

subsection \<open>FIFO\<close>

lemma fifo_from_append:
  "fifo_from capacity st (xs @ ys)
     = (case fifo_from capacity st xs of Inl e \<Rightarrow> Inl e | Inr s \<Rightarrow> fifo_from capacity s ys)"
  by (induction xs arbitrary: st) (auto split: sum.splits)

lemma fifo_step_total:
  assumes "capacity \<noteq> 0" and "length (queue st) = length (frames st)"
  shows "\<exists>st'. fifo_step capacity st p = Inr st'
           \<and> length (queue st') = length (frames st')
           \<and> faults st' = faults st + (if p \<in> set (frames st) then 0 else 1)"
proof (cases "p \<in> set (frames st)")
  case True
  with assms show ?thesis by (simp add: fifo_step_def)
next
  case False
  show ?thesis
  proof (cases "size_lt_capacity (length (frames st)) capacity")
    case True
    with False assms show ?thesis by (simp add: fifo_step_def)
  next
    case full: False
    with assms have "queue st \<noteq> []"
      using full_nonempty [of capacity "length (frames st)"] by auto
    then obtain victim rest where "queue st = victim # rest"
      by (cases "queue st") auto
    with False full assms show ?thesis
      by (auto simp: fifo_step_def replace_value_def)
  qed
qed

lemma fifo_from_total:
  "capacity \<noteq> 0 \<Longrightarrow> length (queue st) = length (frames st) \<Longrightarrow>
   \<exists>st'. fifo_from capacity st pages = Inr st' \<and> length (queue st') = length (frames st')"
proof (induction pages arbitrary: st)
  case Nil
  then show ?case by simp
next
  case (Cons p pages)
  from fifo_step_total [OF Cons.prems, of p] obtain s where
    s: "fifo_step capacity st p = Inr s" "length (queue s) = length (frames s)"
    by blast
  from Cons.IH [OF Cons.prems(1) s(2)] s(1) show ?case by simp
qed

lemma fifo_prefix_step:
  assumes "capacity \<noteq> 0" and "i < length pages"
  shows "\<exists>s s'. fifo (take i pages) capacity = Inr s
           \<and> fifo (take (Suc i) pages) capacity = Inr s'
           \<and> faults s' = faults s + (if pages ! i \<in> set (frames s) then 0 else 1)"
proof -
  obtain s where s: "fifo (take i pages) capacity = Inr s" "length (queue s) = length (frames s)"
    using fifo_from_total [OF assms(1), of fifo_init "take i pages"]
    by (auto simp: fifo_def fifo_init_def)
  obtain s' where s': "fifo_step capacity s (pages ! i) = Inr s'"
      "faults s' = faults s + (if pages ! i \<in> set (frames s) then 0 else 1)"
    using fifo_step_total [OF assms(1) s(2), of "pages ! i"] by blast
  have "take (Suc i) pages = take i pages @ [pages ! i]"
    using assms(2) by (rule take_Suc_conv_app_nth)
  with s s' have "fifo (take (Suc i) pages) capacity = Inr s'"
    by (simp add: fifo_def fifo_from_append)
  with s s' show ?thesis by blast
qed

lemma fifo_prefix_count:
  assumes "capacity \<noteq> 0"
  shows "n \<le> length pages \<Longrightarrow>
     \<exists>s. fifo (take n pages) capacity = Inr s \<and> faults s = fault_count (fifo_resident pages capacity) n"
proof (induction n)
  case 0
  then show ?case by (simp add: fifo_def fifo_init_def fault_count_def)
next
  case (Suc n)
  then obtain s where s: "fifo (take n pages) capacity = Inr s"
      "faults s = fault_count (fifo_resident pages capacity) n"
    by auto
  from Suc.prems fifo_prefix_step [OF assms, of n pages] s(1) obtain s' where
    s': "fifo (take (Suc n) pages) capacity = Inr s'"
      "faults s' = faults s + (if pages ! n \<in> set (frames s) then 0 else 1)"
    by auto
  from s(1) have "fifo_resident pages capacity n = (pages ! n \<in> set (frames s))"
    by (simp add: fifo_resident_def)
  with s s' show ?case
    by (simp add: fault_count_Suc)
qed

subsection \<open>LRU\<close>

lemma lru_from_append:
  "lru_from capacity st (xs @ ys)
     = (case lru_from capacity st xs of Inl e \<Rightarrow> Inl e | Inr s \<Rightarrow> lru_from capacity s ys)"
  by (induction xs arbitrary: st) (auto split: sum.splits)

lemma lru_step_total:
  assumes "capacity \<noteq> 0"
  shows "\<exists>st'. lru_step capacity st p = Inr st'
           \<and> lru_faults st' = lru_faults st + (if p \<in> set (lru_frames st) then 0 else 1)"
proof (cases "p \<in> set (lru_frames st)")
  case True
  then show ?thesis by (simp add: lru_step_def Let_def)
next
  case False
  show ?thesis
  proof (cases "size_lt_capacity (length (lru_frames st)) capacity")
    case True
    with False show ?thesis by (simp add: lru_step_def Let_def)
  next
    case full: False
    with assms have "lru_frames st \<noteq> []"
      using full_nonempty [of capacity "length (lru_frames st)"] by auto
    then obtain first others where "lru_frames st = first # others"
      by (cases "lru_frames st") auto
    with False full show ?thesis
      by (auto simp: lru_step_def Let_def)
  qed
qed

lemma lru_from_total:
  "capacity \<noteq> 0 \<Longrightarrow> \<exists>st'. lru_from capacity st pages = Inr st'"
proof (induction pages arbitrary: st)
  case Nil
  then show ?case by simp
next
  case (Cons p pages)
  from lru_step_total [OF Cons.prems, of st p] obtain s where "lru_step capacity st p = Inr s"
    by blast
  with Cons.IH [OF Cons.prems, of s] show ?case by simp
qed

lemma lru_prefix_step:
  assumes "capacity \<noteq> 0" and "i < length pages"
  shows "\<exists>s s'. lru (take i pages) capacity = Inr s
           \<and> lru (take (Suc i) pages) capacity = Inr s'
           \<and> lru_faults s' = lru_faults s + (if pages ! i \<in> set (lru_frames s) then 0 else 1)"
proof -
  obtain s where s: "lru (take i pages) capacity = Inr s"
    using lru_from_total [OF assms(1), of lru_init "take i pages"]
    by (auto simp: lru_def)
  obtain s' where s': "lru_step capacity s (pages ! i) = Inr s'"
      "lru_faults s' = lru_faults s + (if pages ! i \<in> set (lru_frames s) then 0 else 1)"
    using lru_step_total [OF assms(1), of s "pages ! i"] by blast
  have "take (Suc i) pages = take i pages @ [pages ! i]"
    using assms(2) by (rule take_Suc_conv_app_nth)
  with s s' have "lru (take (Suc i) pages) capacity = Inr s'"
    by (simp add: lru_def lru_from_append)
  with s s' show ?thesis by blast
qed

lemma lru_prefix_count:
  assumes "capacity \<noteq> 0"
  shows "n \<le> length pages \<Longrightarrow>
     \<exists>s. lru (take n pages) capacity = Inr s \<and> lru_faults s = fault_count (lru_resident pages capacity) n"
proof (induction n)
  case 0
  then show ?case by (simp add: lru_def lru_init_def fault_count_def)
next
  case (Suc n)
  then obtain s where s: "lru (take n pages) capacity = Inr s"
      "lru_faults s = fault_count (lru_resident pages capacity) n"
    by auto
  from Suc.prems lru_prefix_step [OF assms, of n pages] s(1) obtain s' where
    s': "lru (take (Suc n) pages) capacity = Inr s'"
      "lru_faults s' = lru_faults s + (if pages ! n \<in> set (lru_frames s) then 0 else 1)"
    by auto
  from s(1) have "lru_resident pages capacity n = (pages ! n \<in> set (lru_frames s))"
    by (simp add: lru_resident_def)
  with s s' show ?case
    by (simp add: fault_count_Suc)
qed

subsection \<open>Optimal\<close>

lemma optimal_step_faults:
  "opt_faults (optimal_step pages capacity st i)
     = opt_faults st + (if pages ! i \<in> set (opt_frames st) then 0 else 1)"
  by (simp add: optimal_step_def Let_def)

lemma optimal_upto_Suc:
  "optimal_upto pages capacity (Suc n) = optimal_step pages capacity (optimal_upto pages capacity n) n"
  by (simp add: optimal_upto_def)

lemma optimal_prefix_step:
  "opt_faults (optimal_upto pages capacity (Suc i))
     = opt_faults (optimal_upto pages capacity i)
       + (if optimal_resident pages capacity i then 0 else 1)"
  by (simp add: optimal_upto_Suc optimal_step_faults optimal_resident_def)

lemma optimal_prefix_count:
  "opt_faults (optimal_upto pages capacity n) = fault_count (optimal_resident pages capacity) n"
proof (induction n)
  case 0
  then show ?case by (simp add: optimal_upto_def optimal_init_def fault_count_def)
next
  case (Suc n)
  then show ?case by (simp add: optimal_prefix_step fault_count_Suc)
qed

subsection \<open>The reference string of \<open>main\<close> with three frames\<close>

lemma size_lt_capacity_3:
  "size_lt_capacity 0 3" "size_lt_capacity (Suc 0) 3" "size_lt_capacity (Suc (Suc 0)) 3"
  "\<not> size_lt_capacity (Suc (Suc (Suc 0))) 3" "\<not> size_lt_capacity n 0"
  by (simp_all add: size_lt_capacity_def)

lemma main_fifo:
  "fifo main_pages 3 = Inr \<lparr>frames = [0, 2, 3], queue = [2, 3, 0], faults = 10\<rparr>"
  by (simp add: fifo_def fifo_init_def main_pages_def fifo_step_def size_lt_capacity_3
      replace_value_def)

lemma main_lru:
  "case lru main_pages 3 of Inl e \<Rightarrow> False | Inr s \<Rightarrow> lru_frames s = [0, 3, 2] \<and> lru_faults s = 9"
  by (simp add: lru_def lru_init_def main_pages_def lru_step_def size_lt_capacity_3
      replace_value_def INT_MAX_def Let_def)

lemma main_optimal:
  "optimal main_pages 3 = \<lparr>opt_frames = [2, 0, 3], opt_faults = 7\<rparr>"
  by (simp add: optimal_def optimal_upto_def optimal_init_def main_pages_def optimal_step_def
      size_lt_capacity_3 replace_value_def next_use_def Let_def upt_rec)

text \<open>
  C8, amended.  For every reference string and every frame capacity other than 0, FIFO and
  LRU run to the end, each reference adds one to the fault counter exactly when its page
  is not in the frames at that moment and nothing on a hit, and the counter at the end is
  the number of references that were faults.  Optimal does so for every capacity.
\<close>

theorem C8_fault_counting:
  "(capacity \<noteq> 0 \<longrightarrow>
      (\<exists>s. fifo pages capacity = Inr s
           \<and> faults s = fault_count (fifo_resident pages capacity) (length pages))
      \<and> (\<exists>s. lru pages capacity = Inr s
           \<and> lru_faults s = fault_count (lru_resident pages capacity) (length pages)))
   \<and> (capacity \<noteq> 0 \<and> i < length pages \<longrightarrow>
      (\<exists>s s'. fifo (take i pages) capacity = Inr s
           \<and> fifo (take (Suc i) pages) capacity = Inr s'
           \<and> faults s' = faults s + (if pages ! i \<in> set (frames s) then 0 else 1))
      \<and> (\<exists>s s'. lru (take i pages) capacity = Inr s
           \<and> lru (take (Suc i) pages) capacity = Inr s'
           \<and> lru_faults s' = lru_faults s + (if pages ! i \<in> set (lru_frames s) then 0 else 1)))
   \<and> opt_faults (optimal pages capacity)
       = fault_count (optimal_resident pages capacity) (length pages)
   \<and> opt_faults (optimal_upto pages capacity (Suc i))
       = opt_faults (optimal_upto pages capacity i)
         + (if pages ! i \<in> set (opt_frames (optimal_upto pages capacity i)) then 0 else 1)"
proof (intro conjI impI)
  assume c: "capacity \<noteq> 0"
  from fifo_prefix_count [OF c, of "length pages" pages]
  show "\<exists>s. fifo pages capacity = Inr s
           \<and> faults s = fault_count (fifo_resident pages capacity) (length pages)"
    by simp
  from lru_prefix_count [OF c, of "length pages" pages]
  show "\<exists>s. lru pages capacity = Inr s
           \<and> lru_faults s = fault_count (lru_resident pages capacity) (length pages)"
    by simp
next
  assume c: "capacity \<noteq> 0 \<and> i < length pages"
  then show "\<exists>s s'. fifo (take i pages) capacity = Inr s
           \<and> fifo (take (Suc i) pages) capacity = Inr s'
           \<and> faults s' = faults s + (if pages ! i \<in> set (frames s) then 0 else 1)"
    by (intro fifo_prefix_step) simp_all
  from c show "\<exists>s s'. lru (take i pages) capacity = Inr s
           \<and> lru (take (Suc i) pages) capacity = Inr s'
           \<and> lru_faults s' = lru_faults s + (if pages ! i \<in> set (lru_frames s) then 0 else 1)"
    by (intro lru_prefix_step) simp_all
next
  show "opt_faults (optimal pages capacity)
       = fault_count (optimal_resident pages capacity) (length pages)"
    by (simp add: optimal_def optimal_prefix_count)
next
  show "opt_faults (optimal_upto pages capacity (Suc i))
       = opt_faults (optimal_upto pages capacity i)
         + (if pages ! i \<in> set (opt_frames (optimal_upto pages capacity i)) then 0 else 1)"
    by (simp add: optimal_prefix_step optimal_resident_def)
qed

text \<open>
  The claim as first stated spoke of every capacity.  With capacity 0 the first reference
  is a miss with no free frame: FIFO reads the front of its empty queue and LRU reads
  \<open>frames[0]\<close> of its empty frame set, which C++ leaves undefined; no total is reported.
\<close>

theorem C8_counterexample:
  "fifo [7] 0 = Inl Undefined_behaviour \<and> lru [7] 0 = Inl Undefined_behaviour"
  by (simp add: fifo_def fifo_init_def fifo_step_def lru_def lru_init_def lru_step_def
      size_lt_capacity_3)

theorem C8_witness:
  "(\<exists>s. fifo main_pages 3 = Inr s
       \<and> faults s = fault_count (fifo_resident main_pages 3) (length main_pages) \<and> faults s = 10)
   \<and> (\<exists>s. lru main_pages 3 = Inr s
       \<and> lru_faults s = fault_count (lru_resident main_pages 3) (length main_pages)
       \<and> lru_faults s = 9)
   \<and> (\<exists>s s'. fifo (take 4 main_pages) 3 = Inr s \<and> fifo (take (Suc 4) main_pages) 3 = Inr s'
       \<and> main_pages ! 4 \<in> set (frames s) \<and> faults s' = faults s)
   \<and> (\<exists>s s'. lru (take 3 main_pages) 3 = Inr s \<and> lru (take (Suc 3) main_pages) 3 = Inr s'
       \<and> main_pages ! 3 \<notin> set (lru_frames s) \<and> lru_faults s' = lru_faults s + 1)
   \<and> opt_faults (optimal main_pages 3) = 7"
proof -
  note all = C8_fault_counting [of 3 main_pages 4]
  note miss = C8_fault_counting [of 3 main_pages 3]
  have c: "(3 :: cpp_int) \<noteq> 0" "4 < length main_pages" "3 < length main_pages"
    by (simp_all add: main_pages_def)
  have f4: "fifo (take 4 main_pages) 3 = Inr \<lparr>frames = [2, 0, 1], queue = [0, 1, 2], faults = 4\<rparr>"
    by (simp add: fifo_def fifo_init_def main_pages_def fifo_step_def size_lt_capacity_3
        replace_value_def)
  have l3: "case lru (take 3 main_pages) 3 of Inl e \<Rightarrow> False | Inr s \<Rightarrow> lru_frames s = [7, 0, 1]"
    by (simp add: lru_def lru_init_def main_pages_def lru_step_def size_lt_capacity_3 Let_def)
  from all c main_fifo have "\<exists>s. fifo main_pages 3 = Inr s
       \<and> faults s = fault_count (fifo_resident main_pages 3) (length main_pages) \<and> faults s = 10"
    by auto
  moreover from all c main_lru have "\<exists>s. lru main_pages 3 = Inr s
       \<and> lru_faults s = fault_count (lru_resident main_pages 3) (length main_pages)
       \<and> lru_faults s = 9"
    by (auto split: sum.splits)
  moreover from all c f4 have "\<exists>s s'. fifo (take 4 main_pages) 3 = Inr s
       \<and> fifo (take (Suc 4) main_pages) 3 = Inr s'
       \<and> main_pages ! 4 \<in> set (frames s) \<and> faults s' = faults s"
    by (auto simp: main_pages_def)
  moreover from miss c l3 have "\<exists>s s'. lru (take 3 main_pages) 3 = Inr s
       \<and> lru (take (Suc 3) main_pages) 3 = Inr s'
       \<and> main_pages ! 3 \<notin> set (lru_frames s) \<and> lru_faults s' = lru_faults s + 1"
    by (auto simp: main_pages_def split: sum.splits)
  moreover have "opt_faults (optimal main_pages 3) = 7"
    by (simp add: main_optimal)
  ultimately show ?thesis by blast
qed

section \<open>Facts about the CPU scheduling simulator\<close>

subsection \<open>Admission to the ready queue\<close>






subsection \<open>One turn of Round Robin\<close>















subsection \<open>The selection of SJF\<close>



subsection \<open>One turn of SJF\<close>












subsection \<open>When the loop of SJF is left\<close>










subsection \<open>Termination of SJF\<close>






end
